theory Spec2Isabelle
  imports Main "HOL-Library.Word" "HOL-Library.Sublist"
begin

unbundle bit_operations_syntax

section \<open>The process model\<close>

text \<open>
  The development embeds \<^verbatim>\<open>src/native/dalvik_system_Zygote.cc\<close> in the configuration
  in which \<^verbatim>\<open>HAVE_ANDROID_OS\<close>, \<^verbatim>\<open>__linux__\<close> and \<^verbatim>\<open>WCOREDUMP\<close> are defined: the
  configuration in which the capability, scheduler and MAC primitives exist (the other
  branch of the \<^verbatim>\<open>#if\<close> at line 191 replaces \<^verbatim>\<open>EnableDebugger\<close>,
  \<^verbatim>\<open>EnableKeepCapabilities\<close>, \<^verbatim>\<open>SetCapabilities\<close> and \<^verbatim>\<open>SetSchedulerPolicy\<close> by empty
  functions). \<^verbatim>\<open>__arm__\<close> is a parameter of the environment.

  Every function of the file runs inside one process. A process is a record \<open>proc\<close>;
  a function of the file is a state transformer that either returns a value or stops the
  process. Everything the process does towards the outside is appended to its trace: the
  operating-system calls with their arguments and return values, the calls into the
  managed runtime, the writes to the two process-wide variables, and the log lines.
  The operating system is a fake one: whether a call fails is decided by the environment
  from the history of the process, and the table of children is explicit.
\<close>

type_synonym pid_t = int
type_synonym jint = "32 word"
type_synonym jlong = "64 word"
type_synonym uid_t = "32 word"
type_synonym gid_t = "32 word"

text \<open>
  The status word that \<^verbatim>\<open>waitpid\<close> fills in, read only through the macros of
  \<^verbatim>\<open><sys/wait.h>\<close>: a child that exited with a code, or a child that a signal
  terminated (with the core-dump flag). \<open>WUntouched\<close> stands for a status word that
  \<^verbatim>\<open>waitpid\<close> did not write.
\<close>

datatype wstatus = WExited int | WSignaled int bool | WUntouched

definition WIFEXITED :: "wstatus \<Rightarrow> bool" where
  "WIFEXITED st = (case st of WExited c \<Rightarrow> True | WSignaled n d \<Rightarrow> False | WUntouched \<Rightarrow> False)"

definition WEXITSTATUS :: "wstatus \<Rightarrow> int" where
  "WEXITSTATUS st = (case st of WExited c \<Rightarrow> c | WSignaled n d \<Rightarrow> 0 | WUntouched \<Rightarrow> 0)"

definition WIFSIGNALED :: "wstatus \<Rightarrow> bool" where
  "WIFSIGNALED st = (case st of WExited c \<Rightarrow> False | WSignaled n d \<Rightarrow> True | WUntouched \<Rightarrow> False)"

definition WTERMSIG :: "wstatus \<Rightarrow> int" where
  "WTERMSIG st = (case st of WExited c \<Rightarrow> 0 | WSignaled n d \<Rightarrow> n | WUntouched \<Rightarrow> 0)"

definition WCOREDUMP :: "wstatus \<Rightarrow> bool" where
  "WCOREDUMP st = (case st of WExited c \<Rightarrow> False | WSignaled n d \<Rightarrow> d | WUntouched \<Rightarrow> False)"

definition SIGKILL :: int where
  "SIGKILL = 9"

datatype sighandler = SIG_DFL | SigChldHandler_fn

text \<open>
  The calls into the operating system that the file makes. \<open>Capset e p\<close> carries the two
  fields \<^verbatim>\<open>effective\<close> and \<^verbatim>\<open>permitted\<close> of the \<^verbatim>\<open>__user_cap_data_struct\<close> handed to
  \<^verbatim>\<open>capset\<close>; \<^verbatim>\<open><linux/capability.h>\<close> declares both as \<^verbatim>\<open>__u32\<close>.
  \<open>Setrlimit r c m\<close> carries the resource and the two limits; a limit is recorded as the
  \<^verbatim>\<open>jint\<close> it was converted from (\<^verbatim>\<open>RLIM_INFINITY\<close>, all bits set, is \<open>-1\<close>).
\<close>

datatype call =
    Execv string "string list"
  | Exit int
  | Waitpid pid_t
  | Kill_self int
  | Sigaction_SIGCHLD sighandler
  | Setgroups "jint list"
  | Setrlimit jint jint jint
  | Prctl_SET_DUMPABLE
  | Prctl_SET_KEEPCAPS
  | Capset "32 word" "32 word"
  | Set_sched_policy
  | Fork
  | Setgid gid_t
  | Setuid uid_t
  | Uname
  | Personality "32 word"
  | Selinux_android_setcontext uid_t bool "string option" "string option"

text \<open>Questions to, and notifications of, the managed runtime (external collaborators).\<close>

datatype query = IsZygote | PreZygoteFork | Vm_check_jni | Jni_elements

datatype notice =
    InitAfterFork
  | DidForkFromZygote
  | SetCheckJniEnabled_vm
  | SetCheckJniEnabled_thread
  | SetJdwpAllowed bool
  | Set_third_party_jni

datatype severity = DEBUG | INFO | WARNING | ERROR | FATAL

text \<open>
  What is streamed into a log line: a string, a number, or a resource limit: a \<^verbatim>\<open>jint\<close>
  converted to the unsigned \<^verbatim>\<open>rlim_t\<close> and printed as such (the width of \<^verbatim>\<open>rlim_t\<close> is the
  platform's, so the digits are not fixed here).
\<close>

datatype logarg = Str string | Num int | Rlim jint

datatype event =
    Sys call int
  | Ask query bool
  | Tell notice
  | Store string int
  | Log severity "logarg list"

text \<open>
  The environment of a run. \<open>fails\<close> says whether the fake operating system makes a call
  fail, \<open>answers\<close> what the runtime answers, \<open>fork_ret\<close> what \<^verbatim>\<open>fork()\<close> returns in the
  modelled process (0 in the child, the child's pid in the parent, -1 on failure), each
  from the history so far. \<open>newborn\<close> is the fate of a child just forked, as the parent
  will find it: \<open>None\<close> while it runs, \<open>Some st\<close> when it has already terminated with
  status \<open>st\<close>. \<open>uname_release\<close> is what \<^verbatim>\<open>sscanf(uts.release, "%d.%d", ...)\<close> yields when
  it reads two numbers, \<open>persona\<close> the execution domain the process starts with, and
  \<open>path_bshell\<close> the constant \<^verbatim>\<open>_PATH_BSHELL\<close> of \<^verbatim>\<open><paths.h>\<close>.
\<close>

record env =
  fails :: "event list \<Rightarrow> call \<Rightarrow> bool"
  answers :: "event list \<Rightarrow> query \<Rightarrow> bool"
  fork_ret :: "event list \<Rightarrow> pid_t"
  newborn :: "event list \<Rightarrow> wstatus option"
  arm :: bool
  uname_release :: "(int \<times> int) option"
  persona :: "32 word"
  path_bshell :: string

text \<open>
  The process: its trace, the two process-wide variables of the file, the two capability
  sets the kernel holds for it (bit \<open>n\<close> set when capability \<open>n\<close> is in the set; the
  kernel keeps 64 bits, as the \<^verbatim>\<open>jlong\<close> bitmasks of a profile do), and the kernel's
  table of its children (\<open>zombies\<close>: the terminated children not yet reaped, in the order
  \<^verbatim>\<open>waitpid\<close> reports them; \<open>running\<close>: the live ones).
\<close>

record proc =
  trace :: "event list"
  gSystemServerPid :: pid_t
  gMallocLeakZygoteChild :: int
  cap_permitted :: "64 word"
  cap_effective :: "64 word"
  zombies :: "(pid_t \<times> wstatus) list"
  running :: "pid_t list"

text \<open>
  How a process stops instead of returning: aborted by the runtime, killed by
  \<^verbatim>\<open>SIGKILL\<close>, exited with a status, or replaced by another program image.
\<close>

datatype stop = Aborted | Killed | Exited int | Replaced

datatype 'a outcome = Returns 'a proc | Stops stop proc

type_synonym 'a prog = "proc \<Rightarrow> 'a outcome"

definition final :: "'a outcome \<Rightarrow> proc" where
  "final out = (case out of Returns a s \<Rightarrow> s | Stops r s \<Rightarrow> s)"

definition ret :: "'a \<Rightarrow> 'a prog" where
  "ret a s = Returns a s"

definition bnd :: "'a prog \<Rightarrow> ('a \<Rightarrow> 'b prog) \<Rightarrow> 'b prog" where
  "bnd m f s = (case m s of Returns a s1 \<Rightarrow> f a s1 | Stops r s1 \<Rightarrow> Stops r s1)"

definition gets :: "(proc \<Rightarrow> 'a) \<Rightarrow> 'a prog" where
  "gets f s = Returns (f s) s"

definition emit :: "event \<Rightarrow> unit prog" where
  "emit e s = Returns () (s\<lparr>trace := trace s @ [e]\<rparr>)"

text \<open>
  Modelled from the spec: the macros \<^verbatim>\<open>LOG(FATAL)\<close>, \<^verbatim>\<open>PLOG(FATAL)\<close>, \<^verbatim>\<open>CHECK\<close> and
  \<^verbatim>\<open>UNIMPLEMENTED(FATAL)\<close> of the runtime's logging header are not in the sources. The
  specification says of them that fatal conditions terminate the offending process with
  a diagnostic: \<open>fatal\<close> writes the log line and stops the process.
\<close>

definition fatal :: "logarg list \<Rightarrow> 'a prog" where
  "fatal msg s = Stops Aborted (s\<lparr>trace := trace s @ [Log FATAL msg]\<rparr>)"

definition ask :: "env \<Rightarrow> query \<Rightarrow> bool prog" where
  "ask E q s = (let b = answers E (trace s) q in Returns b (s\<lparr>trace := trace s @ [Ask q b]\<rparr>))"

subsection \<open>The fake operating system\<close>

text \<open>
  A call that only succeeds or fails returns 0 or -1. A successful \<^verbatim>\<open>capset\<close> installs
  the two sets it was handed: the header version \<^verbatim>\<open>_LINUX_CAPABILITY_VERSION\<close> carries
  one 32-bit word per set, so capabilities 32 to 63 end up absent. No other call of the
  file touches the sets in this model.
\<close>

definition effect :: "call \<Rightarrow> proc \<Rightarrow> proc" where
  "effect c s =
     (case c of
        Capset e p \<Rightarrow> s\<lparr>cap_permitted := ucast p, cap_effective := ucast e\<rparr>
      | _ \<Rightarrow> s)"

definition sys :: "env \<Rightarrow> call \<Rightarrow> int prog" where
  "sys E c s =
     (if fails E (trace s) c
      then Returns (- 1) (s\<lparr>trace := trace s @ [Sys c (- 1)]\<rparr>)
      else Returns 0 ((effect c s)\<lparr>trace := trace s @ [Sys c 0]\<rparr>))"

text \<open>
  \<^verbatim>\<open>waitpid(p, &status, WNOHANG)\<close>, for the two forms the file uses. With \<open>p = -1\<close> it
  reaps the first terminated child if there is one, and otherwise returns 0 when live
  children remain and -1 when the process has no child. With the pid of one child it
  reaps that child if it has terminated, returns 0 if it is alive and -1 if the process
  has no such child.
\<close>

definition waitpid :: "pid_t \<Rightarrow> (pid_t \<times> wstatus) prog" where
  "waitpid p s =
     (let (r, st, zs) =
        (if p = - 1 then
           (case zombies s of
              z # zs \<Rightarrow> (fst z, snd z, zs)
            | [] \<Rightarrow> ((if running s = [] then - 1 else 0), WUntouched, []))
         else
           (case map_of (zombies s) p of
              Some st \<Rightarrow> (p, st, filter (\<lambda>z. fst z \<noteq> p) (zombies s))
            | None \<Rightarrow> ((if p \<in> set (running s) then 0 else - 1), WUntouched, zombies s)))
      in Returns (r, st) (s\<lparr>trace := trace s @ [Sys (Waitpid p) r], zombies := zs\<rparr>))"

text \<open>
  \<^verbatim>\<open>fork()\<close> as seen by the modelled process. In the child the table of children is
  empty; in the parent the new child enters the table, alive or already terminated.
\<close>

definition fork :: "env \<Rightarrow> pid_t prog" where
  "fork E s =
     (let pid = fork_ret E (trace s); s1 = s\<lparr>trace := trace s @ [Sys Fork pid]\<rparr> in
      if pid = 0 then Returns pid (s1\<lparr>zombies := [], running := []\<rparr>)
      else if pid > 0 then
        (case newborn E (trace s) of
           None \<Rightarrow> Returns pid (s1\<lparr>running := running s @ [pid]\<rparr>)
         | Some st \<Rightarrow> Returns pid (s1\<lparr>zombies := zombies s @ [(pid, st)]\<rparr>))
      else Returns pid s1)"

text \<open>
  \<^verbatim>\<open>kill(getpid(), sig)\<close>: \<^verbatim>\<open>SIGKILL\<close> cannot be caught, blocked or ignored, and a
  signal a process sends to itself is delivered before \<^verbatim>\<open>kill\<close> returns, so the call
  ends the process. \<^verbatim>\<open>execv\<close> returns only when it fails; \<^verbatim>\<open>exit\<close> never returns.
\<close>

definition kill_self :: "int \<Rightarrow> int prog" where
  "kill_self sig s =
     (let s1 = s\<lparr>trace := trace s @ [Sys (Kill_self sig) 0]\<rparr> in
      if sig = SIGKILL then Stops Killed s1 else Returns 0 s1)"

definition execv :: "env \<Rightarrow> string \<Rightarrow> string list \<Rightarrow> int prog" where
  "execv E path argv s =
     (if fails E (trace s) (Execv path argv)
      then Returns (- 1) (s\<lparr>trace := trace s @ [Sys (Execv path argv) (- 1)]\<rparr>)
      else Stops Replaced (s\<lparr>trace := trace s @ [Sys (Execv path argv) 0]\<rparr>))"

definition exit_process :: "int \<Rightarrow> 'a prog" where
  "exit_process n s = Stops (Exited n) (s\<lparr>trace := trace s @ [Sys (Exit n) 0]\<rparr>)"

text \<open>
  \<^verbatim>\<open>personality(p)\<close>: with \<open>p = 0xffffffff\<close> it only reads the execution domain;
  otherwise it sets it and returns the previous one, or -1 when it fails.
\<close>

definition personality :: "env \<Rightarrow> 32 word \<Rightarrow> (32 word) prog" where
  "personality E p s =
     (let r = (if p = 0xffffffff then persona E
               else if fails E (trace s) (Personality p) then - 1 else persona E)
      in Returns r (s\<lparr>trace := trace s @ [Sys (Personality p) (sint r)]\<rparr>))"

section \<open>The functions of the file\<close>

subsection \<open>Zygote_nativeExecShell (lines 57-67)\<close>

text \<open>
  \<open>javaCommand\<close> is \<open>None\<close> when \<^verbatim>\<open>command.c_str()\<close> is \<^verbatim>\<open>NULL\<close> (a null reference,
  or characters the runtime could not provide).
\<close>

definition Zygote_nativeExecShell :: "env \<Rightarrow> string option \<Rightarrow> unit prog" where
  "Zygote_nativeExecShell E javaCommand =
     (case javaCommand of
        None \<Rightarrow> ret ()
      | Some command \<Rightarrow>
          bnd (emit (Log INFO [Str ''Exec: '', Str (path_bshell E), Str '' '', Str ''-c'',
                               Str '' '', Str command])) (\<lambda>_.
          bnd (execv E (path_bshell E) [path_bshell E, ''-c'', command]) (\<lambda>_.
          exit_process 127)))"

subsection \<open>SigChldHandler (lines 70-113)\<close>

definition log_child_status :: "pid_t \<Rightarrow> wstatus \<Rightarrow> unit prog" where
  "log_child_status pid status =
     (if WIFEXITED status then
        (if WEXITSTATUS status \<noteq> 0
         then emit (Log INFO [Str ''Process '', Num pid, Str '' exited cleanly ('',
                              Num (WEXITSTATUS status), Str '')''])
         else ret ())
      else if WIFSIGNALED status then
        bnd (if WTERMSIG status \<noteq> SIGKILL
             then emit (Log INFO [Str ''Process '', Num pid, Str '' terminated by signal ('',
                                  Num (WTERMSIG status), Str '')''])
             else ret ()) (\<lambda>_.
        if WCOREDUMP status
        then emit (Log INFO [Str ''Process '', Num pid, Str '' dumped core''])
        else ret ())
      else ret ())"

text \<open>The body of the \<^verbatim>\<open>while\<close> loop, lines 75-107.\<close>

definition reap_body :: "pid_t \<Rightarrow> wstatus \<Rightarrow> unit prog" where
  "reap_body pid status =
     bnd (log_child_status pid status) (\<lambda>_.
     bnd (gets gSystemServerPid) (\<lambda>server.
     if pid = server then
       bnd (emit (Log ERROR [Str ''Exit zygote because system server ('', Num pid,
                             Str '') has terminated''])) (\<lambda>_.
       bnd (kill_self SIGKILL) (\<lambda>_. ret ()))
     else ret ()))"

text \<open>
  The loop \<^verbatim>\<open>while ((pid = waitpid(-1, &status, WNOHANG)) > 0) { ... }\<close>. It returns the
  last value of \<^verbatim>\<open>pid\<close>, the one that ended the loop.
\<close>

function reap_loop :: "pid_t prog" where
  "reap_loop s =
     (case waitpid (- 1) s of
        Returns x s1 \<Rightarrow>
          (if fst x > 0 then
             (case reap_body (fst x) (snd x) s1 of
                Returns u s2 \<Rightarrow> reap_loop s2
              | Stops r s2 \<Rightarrow> Stops r s2)
           else Returns (fst x) s1)
      | Stops r s1 \<Rightarrow> Stops r s1)"
  by pat_completeness auto

lemma zombies_log_child_status:
  "zombies (final (log_child_status pid status s)) = zombies s"
  by (simp add: log_child_status_def final_def bnd_def emit_def ret_def)

lemma zombies_reap_body:
  "reap_body pid status s = Returns u s2 \<Longrightarrow> zombies s2 = zombies s"
  using zombies_log_child_status [of pid status s]
  by (auto simp: reap_body_def final_def bnd_def emit_def ret_def gets_def kill_self_def
      split: outcome.splits if_splits)

lemma zombies_waitpid_any:
  "waitpid (- 1) s = Returns (p, st) s1 \<Longrightarrow> p > 0 \<Longrightarrow> length (zombies s1) < length (zombies s)"
  by (auto simp: waitpid_def split: list.splits if_splits)

termination reap_loop
  by (relation "measure (\<lambda>s. length (zombies s))")
    (auto dest!: zombies_waitpid_any zombies_reap_body)

declare reap_loop.simps [simp del]

definition SigChldHandler :: "unit prog" where
  "SigChldHandler =
     bnd reap_loop (\<lambda>pid.
     if pid < 0 then emit (Log WARNING [Str ''Zygote SIGCHLD error in waitpid'']) else ret ())"

subsection \<open>The helpers of the child (lines 122-358)\<close>

definition SetSigChldHandler :: "env \<Rightarrow> unit prog" where
  "SetSigChldHandler E =
     bnd (sys E (Sigaction_SIGCHLD SigChldHandler_fn)) (\<lambda>err.
     if err < 0 then emit (Log WARNING [Str ''Error setting SIGCHLD handler'']) else ret ())"

definition UnsetSigChldHandler :: "env \<Rightarrow> unit prog" where
  "UnsetSigChldHandler E =
     bnd (sys E (Sigaction_SIGCHLD SIG_DFL)) (\<lambda>err.
     if err < 0 then emit (Log WARNING [Str ''Error unsetting SIGCHLD handler'']) else ret ())"

text \<open>
  \<open>Jni_elements\<close> asks the runtime for the elements of a non-null array or the characters
  of a non-null string; the answer \<open>False\<close> is the \<^verbatim>\<open>NULL\<close> that \<^verbatim>\<open>CHECK\<close> refuses.
\<close>

definition SetGids :: "env \<Rightarrow> jint list option \<Rightarrow> unit prog" where
  "SetGids E javaGids =
     (case javaGids of
        None \<Rightarrow> ret ()
      | Some gids \<Rightarrow>
          bnd (ask E Jni_elements) (\<lambda>got.
          bnd (if \<not> got then fatal [Str ''Check failed: gids.get() != NULL''] else ret ()) (\<lambda>_.
          bnd (sys E (Setgroups gids)) (\<lambda>rc.
          if rc = - 1 then fatal [Str ''setgroups failed''] else ret ()))))"

text \<open>
  The \<^verbatim>\<open>for\<close> loop of \<^verbatim>\<open>SetRLimits\<close>, lines 173-188, over the rows of the array
  (each row a non-null \<^verbatim>\<open>int[]\<close>). The log line of a refused row prints the resource
  as the \<^verbatim>\<open>jint\<close> it is and the two limits as the \<^verbatim>\<open>rlim_t\<close> fields \<^verbatim>\<open>rlim_cur\<close> and
  \<^verbatim>\<open>rlim_max\<close>.
\<close>

fun SetRLimits_rows :: "env \<Rightarrow> jint list list \<Rightarrow> unit prog" where
  "SetRLimits_rows E [] = ret ()"
| "SetRLimits_rows E (javaRlimit # rest) =
     bnd (if length javaRlimit \<noteq> 3
          then fatal [Str ''rlimits array must have a second dimension of size 3'']
          else ret ()) (\<lambda>_.
     bnd (sys E (Setrlimit (javaRlimit ! 0) (javaRlimit ! 1) (javaRlimit ! 2))) (\<lambda>rc.
     bnd (if rc = - 1
          then fatal [Str ''setrlimit('', Num (sint (javaRlimit ! 0)), Str '', {'',
                      Rlim (javaRlimit ! 1), Str '', '', Rlim (javaRlimit ! 2),
                      Str ''}) failed'']
          else ret ()) (\<lambda>_.
     SetRLimits_rows E rest)))"

definition SetRLimits :: "env \<Rightarrow> jint list list option \<Rightarrow> unit prog" where
  "SetRLimits E javaRlimits =
     (case javaRlimits of None \<Rightarrow> ret () | Some rows \<Rightarrow> SetRLimits_rows E rows)"

definition RLIMIT_CORE :: jint where
  "RLIMIT_CORE = 4"

definition RLIM_INFINITY :: jint where
  "RLIM_INFINITY = - 1"

text \<open>The two log lines of \<^verbatim>\<open>EnableDebugger\<close> end with the pid of the process, left out here.\<close>

definition EnableDebugger :: "env \<Rightarrow> unit prog" where
  "EnableDebugger E =
     bnd (sys E Prctl_SET_DUMPABLE) (\<lambda>rc.
     bnd (if rc = - 1
          then emit (Log ERROR [Str ''prctl(PR_SET_DUMPABLE) failed for pid''])
          else ret ()) (\<lambda>_.
     bnd (sys E (Setrlimit RLIMIT_CORE 0 RLIM_INFINITY)) (\<lambda>rc.
     if rc = - 1
     then emit (Log ERROR [Str ''setrlimit(RLIMIT_CORE) failed for pid''])
     else ret ())))"

definition EnableKeepCapabilities :: "env \<Rightarrow> unit prog" where
  "EnableKeepCapabilities E =
     bnd (sys E Prctl_SET_KEEPCAPS) (\<lambda>rc.
     if rc = - 1 then fatal [Str ''prctl(PR_SET_KEEPCAPS) failed''] else ret ())"

text \<open>
  \<^verbatim>\<open>capdata.effective = effective; capdata.permitted = permitted;\<close> assigns a 64-bit
  \<^verbatim>\<open>int64_t\<close> to a 32-bit \<^verbatim>\<open>__u32\<close> field: the conversion keeps the low 32 bits.
\<close>

definition SetCapabilities :: "env \<Rightarrow> jlong \<Rightarrow> jlong \<Rightarrow> unit prog" where
  "SetCapabilities E permitted effective =
     bnd (sys E (Capset (ucast effective) (ucast permitted))) (\<lambda>rc.
     if rc \<noteq> 0
     then fatal [Str ''capset('', Num (sint permitted), Str '', '', Num (sint effective),
                 Str '') failed'']
     else ret ())"

definition SetSchedulerPolicy :: "env \<Rightarrow> unit prog" where
  "SetSchedulerPolicy E =
     bnd (sys E Set_sched_policy) (\<lambda>rc.
     let errno = - rc in
     if errno \<noteq> 0 then fatal [Str ''set_sched_policy(0, SP_DEFAULT) failed''] else ret ())"

definition DEBUG_ENABLE_DEBUGGER :: "32 word" where
  "DEBUG_ENABLE_DEBUGGER = 1"

definition DEBUG_ENABLE_CHECKJNI :: "32 word" where
  "DEBUG_ENABLE_CHECKJNI = push_bit 1 1"

definition DEBUG_ENABLE_ASSERT :: "32 word" where
  "DEBUG_ENABLE_ASSERT = push_bit 2 1"

definition DEBUG_ENABLE_SAFEMODE :: "32 word" where
  "DEBUG_ENABLE_SAFEMODE = push_bit 3 1"

definition DEBUG_ENABLE_JNI_LOGGING :: "32 word" where
  "DEBUG_ENABLE_JNI_LOGGING = push_bit 4 1"

definition EnableDebugFeatures :: "env \<Rightarrow> 32 word \<Rightarrow> unit prog" where
  "EnableDebugFeatures E debug_flags0 =
     bnd (if debug_flags0 AND DEBUG_ENABLE_CHECKJNI \<noteq> 0 then
            bnd (ask E Vm_check_jni) (\<lambda>check_jni.
            bnd (if \<not> check_jni then
                   bnd (emit (Log DEBUG [Str ''Late-enabling -Xcheck:jni''])) (\<lambda>_.
                   bnd (emit (Tell SetCheckJniEnabled_vm)) (\<lambda>_.
                   emit (Tell SetCheckJniEnabled_thread)))
                 else emit (Log DEBUG [Str ''Not late-enabling -Xcheck:jni (already on)''])) (\<lambda>_.
            ret (debug_flags0 AND NOT DEBUG_ENABLE_CHECKJNI)))
          else ret debug_flags0) (\<lambda>debug_flags1.
     bnd (if debug_flags1 AND DEBUG_ENABLE_JNI_LOGGING \<noteq> 0 then
            bnd (emit (Tell Set_third_party_jni)) (\<lambda>_.
            ret (debug_flags1 AND NOT DEBUG_ENABLE_JNI_LOGGING))
          else ret debug_flags1) (\<lambda>debug_flags2.
     bnd (emit (Tell (SetJdwpAllowed (debug_flags2 AND DEBUG_ENABLE_DEBUGGER \<noteq> 0)))) (\<lambda>_.
     bnd (if debug_flags2 AND DEBUG_ENABLE_DEBUGGER \<noteq> 0 then EnableDebugger E else ret ()) (\<lambda>_.
     let debug_flags3 = debug_flags2 AND NOT DEBUG_ENABLE_DEBUGGER;
         debug_flags4 = debug_flags3 AND NOT DEBUG_ENABLE_ASSERT;
         debug_flags5 = debug_flags4 AND NOT DEBUG_ENABLE_SAFEMODE
     in if debug_flags5 \<noteq> 0
        then emit (Log ERROR [Str ''Unknown bits set in debug_flags: '', Num (uint debug_flags5)])
        else ret ()))))"

definition MOUNT_EXTERNAL_NONE :: jint where
  "MOUNT_EXTERNAL_NONE = 0"

text \<open>The branch under \<^verbatim>\<open>#if 0\<close> is not compiled; what remains is \<^verbatim>\<open>UNIMPLEMENTED(FATAL)\<close>.\<close>

definition MountExternalStorage :: "uid_t \<Rightarrow> jint \<Rightarrow> unit prog" where
  "MountExternalStorage u mount_mode =
     (if mount_mode = MOUNT_EXTERNAL_NONE then ret ()
      else fatal [Str ''MountExternalStorage unimplemented''])"

definition NeedsNoRandomizeWorkaround :: "env \<Rightarrow> bool prog" where
  "NeedsNoRandomizeWorkaround E =
     (if \<not> arm E then ret False
      else
        bnd (sys E Uname) (\<lambda>rc.
        if rc = - 1 then ret False
        else
          (case uname_release E of
             None \<Rightarrow> ret False
           | Some v \<Rightarrow> ret (fst v < 3 \<or> (fst v = 3 \<and> snd v < 4)))))"

definition ADDR_NO_RANDOMIZE :: "32 word" where
  "ADDR_NO_RANDOMIZE = 0x0040000"


subsection \<open>ForkAndSpecializeCommon (lines 362-461)\<close>

text \<open>The parameters of \<^verbatim>\<open>ForkAndSpecializeCommon\<close>, under their names in the source.\<close>

record spawn_args =
  uid :: uid_t
  gid :: gid_t
  javaGids :: "jint list option"
  debug_flags :: "32 word"
  javaRlimits :: "jint list list option"
  permittedCapabilities :: jlong
  effectiveCapabilities :: jlong
  mount_external :: jint
  java_se_info :: "string option"
  java_se_name :: "string option"
  is_system_server :: bool

definition store_gMallocLeakZygoteChild :: "int \<Rightarrow> unit prog" where
  "store_gMallocLeakZygoteChild v s =
     Returns () (s\<lparr>trace := trace s @ [Store ''gMallocLeakZygoteChild'' v],
                   gMallocLeakZygoteChild := v\<rparr>)"

definition store_gSystemServerPid :: "pid_t \<Rightarrow> unit prog" where
  "store_gSystemServerPid v s =
     Returns () (s\<lparr>trace := trace s @ [Store ''gSystemServerPid'' v], gSystemServerPid := v\<rparr>)"

text \<open>
  Lines 423-429 and 430-436: the characters of an optional string, \<^verbatim>\<open>NULL\<close> for a null
  reference, with the \<^verbatim>\<open>CHECK\<close> that the runtime provided them.
\<close>

definition checked_utf_chars :: "env \<Rightarrow> string option \<Rightarrow> (string option) prog" where
  "checked_utf_chars E js =
     (case js of
        None \<Rightarrow> ret None
      | Some chars \<Rightarrow>
          bnd (ask E Jni_elements) (\<lambda>got.
          if \<not> got then fatal [Str ''Check failed: c_str != NULL''] else ret (Some chars)))"

text \<open>
  The child's branch, \<^verbatim>\<open>if (pid == 0) { ... }\<close>, lines 382-456. The log line of a
  failed \<^verbatim>\<open>selinux_android_setcontext\<close> is kept without the arguments it prints.
\<close>

definition child_branch :: "env \<Rightarrow> spawn_args \<Rightarrow> unit prog" where
  "child_branch E a =
     bnd (store_gMallocLeakZygoteChild 1) (\<lambda>_.
     bnd (if uid a \<noteq> 0 then EnableKeepCapabilities E else ret ()) (\<lambda>_.
     bnd (MountExternalStorage (uid a) (mount_external a)) (\<lambda>_.
     bnd (SetGids E (javaGids a)) (\<lambda>_.
     bnd (SetRLimits E (javaRlimits a)) (\<lambda>_.
     bnd (sys E (Setgid (gid a))) (\<lambda>rc.
     bnd (if rc = - 1
          then fatal [Str ''setgid('', Num (uint (gid a)), Str '') failed'']
          else ret ()) (\<lambda>_.
     bnd (sys E (Setuid (uid a))) (\<lambda>rc.
     bnd (if rc = - 1
          then fatal [Str ''setuid('', Num (uint (uid a)), Str '') failed'']
          else ret ()) (\<lambda>_.
     bnd (NeedsNoRandomizeWorkaround E) (\<lambda>needed.
     bnd (if needed then
            bnd (personality E 0xffffffff) (\<lambda>old_personality.
            bnd (personality E (old_personality OR ADDR_NO_RANDOMIZE)) (\<lambda>new_personality.
            if new_personality = - 1
            then emit (Log WARNING [Str ''personality('', Num (sint new_personality),
                                    Str '') failed''])
            else ret ()))
          else ret ()) (\<lambda>_.
     bnd (SetCapabilities E (permittedCapabilities a) (effectiveCapabilities a)) (\<lambda>_.
     bnd (SetSchedulerPolicy E) (\<lambda>_.
     bnd (checked_utf_chars E (java_se_info a)) (\<lambda>se_info_c_str.
     bnd (checked_utf_chars E (java_se_name a)) (\<lambda>se_name_c_str.
     bnd (sys E (Selinux_android_setcontext (uid a) (is_system_server a)
                   se_info_c_str se_name_c_str)) (\<lambda>rc.
     bnd (if rc = - 1
          then fatal [Str ''selinux_android_setcontext failed'']
          else ret ()) (\<lambda>_.
     bnd (emit (Tell InitAfterFork)) (\<lambda>_.
     bnd (EnableDebugFeatures E (debug_flags a)) (\<lambda>_.
     bnd (UnsetSigChldHandler E) (\<lambda>_.
     emit (Tell DidForkFromZygote)))))))))))))))))))))"

definition ForkAndSpecializeCommon :: "env \<Rightarrow> spawn_args \<Rightarrow> pid_t prog" where
  "ForkAndSpecializeCommon E a =
     bnd (ask E IsZygote) (\<lambda>zygote.
     bnd (if \<not> zygote
          then fatal [Str ''Check failed: runtime->IsZygote() '',
                      Str ''runtime instance not started with -Xzygote'']
          else ret ()) (\<lambda>_.
     bnd (ask E PreZygoteFork) (\<lambda>quiesced.
     bnd (if \<not> quiesced then fatal [Str ''pre-fork heap failed''] else ret ()) (\<lambda>_.
     bnd (SetSigChldHandler E) (\<lambda>_.
     bnd (fork E) (\<lambda>pid.
     bnd (if pid = 0 then child_branch E a else ret ()) (\<lambda>_.
     ret pid)))))))"

subsection \<open>The two entry points (lines 463-489)\<close>

definition Zygote_nativeForkAndSpecialize ::
  "env \<Rightarrow> jint \<Rightarrow> jint \<Rightarrow> jint list option \<Rightarrow> jint \<Rightarrow> jint list list option \<Rightarrow> jint \<Rightarrow>
   string option \<Rightarrow> string option \<Rightarrow> pid_t prog" where
  "Zygote_nativeForkAndSpecialize E u g gids flags rlimits mount_mode se_info se_name =
     ForkAndSpecializeCommon E
       \<lparr>uid = u, gid = g, javaGids = gids, debug_flags = flags, javaRlimits = rlimits,
        permittedCapabilities = 0, effectiveCapabilities = 0, mount_external = mount_mode,
        java_se_info = se_info, java_se_name = se_name, is_system_server = False\<rparr>"

definition Zygote_nativeForkSystemServer ::
  "env \<Rightarrow> uid_t \<Rightarrow> gid_t \<Rightarrow> jint list option \<Rightarrow> jint \<Rightarrow> jint list list option \<Rightarrow> jlong \<Rightarrow>
   jlong \<Rightarrow> pid_t prog" where
  "Zygote_nativeForkSystemServer E u g gids flags rlimits permitted effective =
     bnd (ForkAndSpecializeCommon E
            \<lparr>uid = u, gid = g, javaGids = gids, debug_flags = flags, javaRlimits = rlimits,
             permittedCapabilities = permitted, effectiveCapabilities = effective,
             mount_external = MOUNT_EXTERNAL_NONE, java_se_info = None, java_se_name = None,
             is_system_server = True\<rparr>) (\<lambda>pid.
     bnd (if pid > 0 then
            bnd (emit (Log INFO [Str ''System server process '', Num pid,
                                 Str '' has been created''])) (\<lambda>_.
            bnd (store_gSystemServerPid pid) (\<lambda>_.
            bnd (waitpid pid) (\<lambda>w.
            if fst w = pid
            then fatal [Str ''System server process '', Num pid,
                        Str '' has died. Restarting Zygote!'']
            else ret ())))
          else ret ()) (\<lambda>_.
     ret pid))"

section \<open>Reasoning about runs\<close>

text \<open>
  \<open>wp m Qn Qa s\<close>: the run of \<open>m\<close> from \<open>s\<close> satisfies \<open>Qn\<close> if it returns and \<open>Qa\<close>
  if it stops.
\<close>

definition wp :: "'a prog \<Rightarrow> ('a \<Rightarrow> proc \<Rightarrow> bool) \<Rightarrow> (stop \<Rightarrow> proc \<Rightarrow> bool) \<Rightarrow> proc \<Rightarrow> bool" where
  "wp m Qn Qa s = (case m s of Returns a s' \<Rightarrow> Qn a s' | Stops r s' \<Rightarrow> Qa r s')"

text \<open>The events that a run from \<open>s\<close> to \<open>s'\<close> appended to the trace.\<close>

definition issued :: "proc \<Rightarrow> proc \<Rightarrow> event list" where
  "issued s s' = drop (length (trace s)) (trace s')"

text \<open>
  The privileged calls: \<^verbatim>\<open>fork\<close>, the two identity changes and the installation of
  the capability sets.
\<close>

definition priv_call :: "call \<Rightarrow> bool" where
  "priv_call c =
     (case c of Fork \<Rightarrow> True | Setgid g \<Rightarrow> True | Setuid u \<Rightarrow> True | Capset e p \<Rightarrow> True
      | _ \<Rightarrow> False)"

definition priv :: "event \<Rightarrow> bool" where
  "priv e = (case e of Sys c rc \<Rightarrow> priv_call c | _ \<Rightarrow> False)"

text \<open>
  A run from \<open>s\<close> to \<open>s'\<close> keeps the privileges when it only appended events that are
  not privileged calls and left the capability sets alone. A program is quiet when each
  of its runs keeps the privileges and stops, if it stops, only by aborting.
\<close>

definition keeps :: "proc \<Rightarrow> proc \<Rightarrow> bool" where
  "keeps s s' \<longleftrightarrow>
     prefix (trace s) (trace s') \<and> filter priv (trace s') = filter priv (trace s) \<and>
     cap_permitted s' = cap_permitted s \<and> cap_effective s' = cap_effective s"

definition quiet :: "'a prog \<Rightarrow> bool" where
  "quiet m \<longleftrightarrow> (\<forall>s. wp m (\<lambda>a s'. keeps s s') (\<lambda>r s'. r = Aborted \<and> keeps s s') s)"

text \<open>The identity changes and the capability installation of a child, with their results.\<close>

definition child_calls :: "spawn_args \<Rightarrow> int \<Rightarrow> int \<Rightarrow> int \<Rightarrow> event list" where
  "child_calls a rg ru rc =
     [Sys (Setgid (gid a)) rg, Sys (Setuid (uid a)) ru,
      Sys (Capset (ucast (effectiveCapabilities a)) (ucast (permittedCapabilities a))) rc]"

text \<open>The privileged calls that a child which aborts can have made.\<close>

definition child_partial :: "spawn_args \<Rightarrow> event list list" where
  "child_partial a =
     [[], [Sys (Setgid (gid a)) (- 1)], [Sys (Setgid (gid a)) 0],
      [Sys (Setgid (gid a)) 0, Sys (Setuid (uid a)) (- 1)],
      [Sys (Setgid (gid a)) 0, Sys (Setuid (uid a)) 0],
      child_calls a 0 0 (- 1), child_calls a 0 0 0]"

text \<open>
  \<open>made s0 X cp ce s\<close>: since \<open>s0\<close> the process has made exactly the privileged calls \<open>X\<close>,
  and its capability sets are now \<open>cp\<close> and \<open>ce\<close>.
\<close>

definition made :: "proc \<Rightarrow> event list \<Rightarrow> 64 word \<Rightarrow> 64 word \<Rightarrow> proc \<Rightarrow> bool" where
  "made s0 X cp ce s \<longleftrightarrow>
     prefix (trace s0) (trace s) \<and> filter priv (trace s) = filter priv (trace s0) @ X \<and>
     cap_permitted s = cp \<and> cap_effective s = ce"

text \<open>
  The part of the child's branch that follows \<^verbatim>\<open>SetRLimits\<close> (lines 396-456), named
  for the proofs; \<open>child_branch_split\<close> below shows that the child's branch is the four
  steps before \<^verbatim>\<open>SetRLimits\<close>, \<^verbatim>\<open>SetRLimits\<close>, and this part.
\<close>

definition child_post :: "env \<Rightarrow> spawn_args \<Rightarrow> unit prog" where
  "child_post E a =
     bnd (sys E (Setgid (gid a))) (\<lambda>rc.
     bnd (if rc = - 1
          then fatal [Str ''setgid('', Num (uint (gid a)), Str '') failed'']
          else ret ()) (\<lambda>_.
     bnd (sys E (Setuid (uid a))) (\<lambda>rc.
     bnd (if rc = - 1
          then fatal [Str ''setuid('', Num (uint (uid a)), Str '') failed'']
          else ret ()) (\<lambda>_.
     bnd (NeedsNoRandomizeWorkaround E) (\<lambda>needed.
     bnd (if needed then
            bnd (personality E 0xffffffff) (\<lambda>old_personality.
            bnd (personality E (old_personality OR ADDR_NO_RANDOMIZE)) (\<lambda>new_personality.
            if new_personality = - 1
            then emit (Log WARNING [Str ''personality('', Num (sint new_personality),
                                    Str '') failed''])
            else ret ()))
          else ret ()) (\<lambda>_.
     bnd (SetCapabilities E (permittedCapabilities a) (effectiveCapabilities a)) (\<lambda>_.
     bnd (SetSchedulerPolicy E) (\<lambda>_.
     bnd (checked_utf_chars E (java_se_info a)) (\<lambda>se_info_c_str.
     bnd (checked_utf_chars E (java_se_name a)) (\<lambda>se_name_c_str.
     bnd (sys E (Selinux_android_setcontext (uid a) (is_system_server a)
                   se_info_c_str se_name_c_str)) (\<lambda>rc.
     bnd (if rc = - 1
          then fatal [Str ''selinux_android_setcontext failed'']
          else ret ()) (\<lambda>_.
     bnd (emit (Tell InitAfterFork)) (\<lambda>_.
     bnd (EnableDebugFeatures E (debug_flags a)) (\<lambda>_.
     bnd (UnsetSigChldHandler E) (\<lambda>_.
     emit (Tell DidForkFromZygote))))))))))))))))"

text \<open>
  What the loop of \<^verbatim>\<open>SetRLimits\<close> appends to the trace for a row it applies, and for
  the row at which it gives up: a row of the wrong size, or a row the system refuses.
\<close>

definition applied :: "jint list \<Rightarrow> event" where
  "applied row = Sys (Setrlimit (row ! 0) (row ! 1) (row ! 2)) 0"

definition refused :: "jint list \<Rightarrow> event list" where
  "refused row =
     (if length row \<noteq> 3
      then [Log FATAL [Str ''rlimits array must have a second dimension of size 3'']]
      else [Sys (Setrlimit (row ! 0) (row ! 1) (row ! 2)) (- 1),
            Log FATAL [Str ''setrlimit('', Num (sint (row ! 0)), Str '', {'',
                       Rlim (row ! 1), Str '', '', Rlim (row ! 2),
                       Str ''}) failed'']])"


text \<open>The identity changes among the events of a trace, in order.\<close>

definition identity_call :: "call \<Rightarrow> bool" where
  "identity_call c = (case c of Setgid g \<Rightarrow> True | Setuid u \<Rightarrow> True | _ \<Rightarrow> False)"

definition identity_calls :: "event list \<Rightarrow> event list" where
  "identity_calls tr = filter (\<lambda>e. case e of Sys c rc \<Rightarrow> identity_call c | _ \<Rightarrow> False) tr"

text \<open>The capability installations among the events of a trace, in order.\<close>

definition capset_calls :: "event list \<Rightarrow> event list" where
  "capset_calls tr =
     filter (\<lambda>e. case e of Sys c rc \<Rightarrow> (case c of Capset e p \<Rightarrow> True | _ \<Rightarrow> False)
                  | _ \<Rightarrow> False) tr"

text \<open>
  The pids that \<^verbatim>\<open>waitpid\<close> returned for a reaped child, in order, and the number of
  \<^verbatim>\<open>SIGKILL\<close>s the process sent to itself.
\<close>

definition reaped :: "event list \<Rightarrow> pid_t list" where
  "reaped tr =
     concat (map (\<lambda>e. case e of
                         Sys c r \<Rightarrow> (case c of Waitpid p \<Rightarrow> if r > 0 then [r] else [] | _ \<Rightarrow> [])
                       | _ \<Rightarrow> []) tr)"

definition kills :: "event list \<Rightarrow> nat" where
  "kills tr =
     length (filter (\<lambda>e. case e of
                            Sys c r \<Rightarrow> (case c of Kill_self sig \<Rightarrow> sig = SIGKILL | _ \<Rightarrow> False)
                          | _ \<Rightarrow> False) tr)"

definition is_log :: "event \<Rightarrow> bool" where
  "is_log e = (case e of Log sev msg \<Rightarrow> True | _ \<Rightarrow> False)"

text \<open>
  The pending children that one drain reaches when the registered pid is \<open>g\<close>: all of
  them up to and including the first whose pid is \<open>g\<close>; and the ones it leaves behind.
\<close>

definition drained :: "pid_t \<Rightarrow> (pid_t \<times> wstatus) list \<Rightarrow> (pid_t \<times> wstatus) list" where
  "drained g zs = takeWhile (\<lambda>z. fst z \<noteq> g) zs @ take 1 (dropWhile (\<lambda>z. fst z \<noteq> g) zs)"

definition left_behind :: "pid_t \<Rightarrow> (pid_t \<times> wstatus) list \<Rightarrow> (pid_t \<times> wstatus) list" where
  "left_behind g zs = drop 1 (dropWhile (\<lambda>z. fst z \<noteq> g) zs)"

text \<open>A program that only writes log lines and returns.\<close>

definition logging :: "unit prog \<Rightarrow> bool" where
  "logging m \<longleftrightarrow>
     (\<forall>s. \<exists>evs. m s = Returns () (s\<lparr>trace := trace s @ evs\<rparr>) \<and> list_all is_log evs)"

subsection \<open>The shape of a trace\<close>















section \<open>Concrete runs\<close>

text \<open>
  An environment in which nothing fails, the runtime is a quiesced zygote and \<^verbatim>\<open>fork\<close>
  returns 0 (the modelled process is the child), and a parent process that holds every
  capability and has no children.
\<close>

definition calm_env :: env where
  "calm_env = \<lparr>fails = (\<lambda>tr c. False), answers = (\<lambda>tr q. True), fork_ret = (\<lambda>tr. 0),
     newborn = (\<lambda>tr. None), arm = False, uname_release = None, persona = 0,
     path_bshell = ''/system/bin/sh''\<rparr>"

definition fresh_proc :: proc where
  "fresh_proc = \<lparr>trace = [], gSystemServerPid = 0, gMallocLeakZygoteChild = 0,
     cap_permitted = - 1, cap_effective = - 1, zombies = [], running = []\<rparr>"

definition plain_args :: spawn_args where
  "plain_args = \<lparr>uid = 10001, gid = 10001, javaGids = None, debug_flags = 0,
     javaRlimits = None, permittedCapabilities = 0, effectiveCapabilities = 0,
     mount_external = 0, java_se_info = None, java_se_name = None,
     is_system_server = False\<rparr>"

text \<open>
  A profile whose two capability bitmasks hold capability 32 only, and the system server's
  parameters with capabilities 0 and 2.
\<close>

definition high_caps_args :: spawn_args where
  "high_caps_args =
     plain_args\<lparr>permittedCapabilities := 0x100000000, effectiveCapabilities := 0x100000000\<rparr>"

definition low_caps_args :: spawn_args where
  "low_caps_args = plain_args\<lparr>permittedCapabilities := 5, effectiveCapabilities := 5\<rparr>"


text \<open>
  Three more environments: the runtime fails to quiesce; \<^verbatim>\<open>fork\<close> fails; the parent of
  a child with pid 1234 that has already exited with status 1 when the parent looks.
\<close>

definition unquiesced_env :: env where
  "unquiesced_env = calm_env\<lparr>answers := (\<lambda>tr q. q \<noteq> PreZygoteFork)\<rparr>"

definition fork_fails_env :: env where
  "fork_fails_env = calm_env\<lparr>fork_ret := (\<lambda>tr. - 1)\<rparr>"

definition dead_child_env :: env where
  "dead_child_env = calm_env\<lparr>fork_ret := (\<lambda>tr. 1234), newborn := (\<lambda>tr. Some (WExited 1))\<rparr>"

text \<open>
  A service whose registered singleton has pid 5, with two terminated children pending,
  the singleton first; and the same service when the two pending children are others.
\<close>

definition singleton_pending :: proc where
  "singleton_pending =
     fresh_proc\<lparr>gSystemServerPid := 5, zombies := [(5, WSignaled 11 True), (7, WExited 0)]\<rparr>"

definition others_pending :: proc where
  "others_pending =
     fresh_proc\<lparr>gSystemServerPid := 5, zombies := [(6, WExited 1), (7, WExited 0)],
                  running := [5]\<rparr>"

text \<open>
  Two resource-limit rows, a profile that carries them, and an environment whose system
  refuses every \<^verbatim>\<open>setrlimit\<close> on resource 4.
\<close>

definition two_rows :: "jint list list" where
  "two_rows = [[7, 1024, 4096], [4, 0, 0]]"

definition limited_args :: spawn_args where
  "limited_args = plain_args\<lparr>javaRlimits := Some two_rows\<rparr>"

definition refusing_env :: env where
  "refusing_env =
     calm_env\<lparr>fails := (\<lambda>tr c. case c of Setrlimit r lo hi \<Rightarrow> r = 4 | _ \<Rightarrow> False)\<rparr>"

section \<open>Lemmas\<close>

lemma wp_ret [simp]: "wp (ret a) Qn Qa = Qn a"
  by (rule ext) (simp add: wp_def ret_def)

lemma wp_bnd [simp]: "wp (bnd m f) Qn Qa = wp m (\<lambda>a. wp (f a) Qn Qa) Qa"
  by (rule ext) (simp add: wp_def bnd_def split: outcome.splits)

lemma wp_emit [simp]: "wp (emit e) Qn Qa s = Qn () (s\<lparr>trace := trace s @ [e]\<rparr>)"
  by (simp add: wp_def emit_def)

lemma wp_fatal [simp]:
  "wp (fatal msg) Qn Qa s = Qa Aborted (s\<lparr>trace := trace s @ [Log FATAL msg]\<rparr>)"
  by (simp add: wp_def fatal_def)

lemma wp_ask [simp]:
  "wp (ask E q) Qn Qa s =
     Qn (answers E (trace s) q) (s\<lparr>trace := trace s @ [Ask q (answers E (trace s) q)]\<rparr>)"
  by (simp add: wp_def ask_def Let_def)

lemma wp_sys:
  "wp (sys E c) Qn Qa s =
     (if fails E (trace s) c then Qn (- 1) (s\<lparr>trace := trace s @ [Sys c (- 1)]\<rparr>)
      else Qn 0 ((effect c s)\<lparr>trace := trace s @ [Sys c 0]\<rparr>))"
  by (simp add: wp_def sys_def)

lemma wp_Returns: "wp m Qn Qa s \<Longrightarrow> m s = Returns a s' \<Longrightarrow> Qn a s'"
  by (simp add: wp_def)

lemma wp_Stops: "wp m Qn Qa s \<Longrightarrow> m s = Stops r s' \<Longrightarrow> Qa r s'"
  by (simp add: wp_def)

lemma wp_mono:
  assumes "wp m Qn Qa s"
    and "\<And>a s'. Qn a s' \<Longrightarrow> Qn' a s'"
    and "\<And>r s'. Qa r s' \<Longrightarrow> Qa' r s'"
  shows "wp m Qn' Qa' s"
  using assms by (auto simp: wp_def split: outcome.splits)

lemma wp_quiet:
  assumes "quiet m"
    and "\<And>a s'. keeps s s' \<Longrightarrow> Qn a s'"
    and "\<And>s'. keeps s s' \<Longrightarrow> Qa Aborted s'"
  shows "wp m Qn Qa s"
  using assms unfolding quiet_def wp_def
  by (auto split: outcome.splits dest!: spec [of _ s])

lemma keeps_refl [simp]: "keeps s s"
  by (simp add: keeps_def)

lemma keeps_trans: "keeps s s1 \<Longrightarrow> keeps s1 s2 \<Longrightarrow> keeps s s2"
  by (auto simp: keeps_def elim: prefix_order.trans)

lemma quiet_ret: "quiet (ret a)"
  by (simp add: quiet_def)

lemma quiet_bnd:
  assumes "quiet m" and "\<And>a. quiet (f a)"
  shows "quiet (bnd m f)"
  unfolding quiet_def
proof
  fix s
  show "wp (bnd m f) (\<lambda>a. keeps s) (\<lambda>r s'. r = Aborted \<and> keeps s s') s"
    unfolding wp_bnd
  proof (rule wp_quiet [OF assms(1)])
    fix a s1
    assume k: "keeps s s1"
    show "wp (f a) (\<lambda>a. keeps s) (\<lambda>r s'. r = Aborted \<and> keeps s s') s1"
      by (rule wp_quiet [OF assms(2)]) (auto intro: keeps_trans [OF k])
  qed simp
qed

lemma quiet_emit: "\<not> priv e \<Longrightarrow> quiet (emit e)"
  by (simp add: quiet_def keeps_def)

lemma quiet_fatal: "quiet (fatal msg)"
  by (simp add: quiet_def keeps_def priv_def)

lemma quiet_ask: "quiet (ask E q)"
  by (simp add: quiet_def keeps_def priv_def)

lemma quiet_sys: "\<not> priv_call c \<Longrightarrow> quiet (sys E c)"
  by (cases c) (simp_all add: quiet_def wp_sys keeps_def priv_def priv_call_def effect_def)

lemma quiet_if: "quiet m \<Longrightarrow> quiet n \<Longrightarrow> quiet (if b then m else n)"
  by simp

lemma quiet_option:
  "quiet m \<Longrightarrow> (\<And>x. quiet (f x)) \<Longrightarrow> quiet (case v of None \<Rightarrow> m | Some x \<Rightarrow> f x)"
  by (cases v) simp_all

lemma quiet_personality: "quiet (personality E p)"
  by (simp add: quiet_def wp_def personality_def keeps_def priv_def priv_call_def Let_def)

lemma quiet_store: "quiet (store_gMallocLeakZygoteChild v)"
  by (simp add: quiet_def wp_def store_gMallocLeakZygoteChild_def keeps_def priv_def)

lemmas quiet_intros = quiet_ret quiet_bnd quiet_emit quiet_fatal quiet_ask quiet_sys quiet_if
  quiet_personality quiet_store quiet_option

lemma quiet_EnableKeepCapabilities: "quiet (EnableKeepCapabilities E)"
  unfolding EnableKeepCapabilities_def
  by (intro quiet_intros; simp add: priv_call_def priv_def)

lemma quiet_MountExternalStorage: "quiet (MountExternalStorage u m)"
  unfolding MountExternalStorage_def
  by (intro quiet_intros)

lemma quiet_SetGids: "quiet (SetGids E g)"
  unfolding SetGids_def
  by (intro quiet_intros; simp add: priv_call_def priv_def)

lemma quiet_SetRLimits_rows: "quiet (SetRLimits_rows E rows)"
proof (induction rows)
  case Nil
  show ?case by (simp add: quiet_ret)
next
  case (Cons r rows)
  show ?case
    unfolding SetRLimits_rows.simps
    by (intro quiet_intros Cons; simp add: priv_call_def priv_def)
qed

lemma quiet_SetRLimits: "quiet (SetRLimits E r)"
  unfolding SetRLimits_def
  by (intro quiet_intros quiet_SetRLimits_rows)

lemma quiet_NeedsNoRandomizeWorkaround: "quiet (NeedsNoRandomizeWorkaround E)"
  unfolding NeedsNoRandomizeWorkaround_def
  by (intro quiet_intros; simp add: priv_call_def priv_def)

lemma quiet_personality_block:
  "quiet (if needed then
            bnd (personality E 0xffffffff) (\<lambda>old_personality.
            bnd (personality E (old_personality OR ADDR_NO_RANDOMIZE)) (\<lambda>new_personality.
            if new_personality = - 1
            then emit (Log WARNING [Str ''personality('', Num (sint new_personality),
                                    Str '') failed''])
            else ret ()))
          else ret ())"
  by (intro quiet_intros; simp add: priv_def)

lemma quiet_SetSchedulerPolicy: "quiet (SetSchedulerPolicy E)"
  unfolding SetSchedulerPolicy_def Let_def
  by (intro quiet_intros; simp add: priv_call_def priv_def)

lemma quiet_checked_utf_chars: "quiet (checked_utf_chars E js)"
  unfolding checked_utf_chars_def
  by (intro quiet_intros; simp add: priv_call_def priv_def)

lemma quiet_EnableDebugger: "quiet (EnableDebugger E)"
  unfolding EnableDebugger_def
  by (intro quiet_intros; simp add: priv_call_def priv_def)

lemma quiet_EnableDebugFeatures: "quiet (EnableDebugFeatures E f)"
  unfolding EnableDebugFeatures_def Let_def
  by (intro quiet_intros quiet_EnableDebugger; simp add: priv_call_def priv_def)

lemma quiet_UnsetSigChldHandler: "quiet (UnsetSigChldHandler E)"
  unfolding UnsetSigChldHandler_def
  by (intro quiet_intros; simp add: priv_call_def priv_def)

lemma quiet_SetSigChldHandler: "quiet (SetSigChldHandler E)"
  unfolding SetSigChldHandler_def
  by (intro quiet_intros; simp add: priv_call_def priv_def)

lemma quiet_check: "quiet (if b then fatal msg else ret ())"
  by (intro quiet_intros)

lemma quiet_selinux: "quiet (sys E (Selinux_android_setcontext u b i n))"
  by (rule quiet_sys) (simp add: priv_call_def)

lemma quiet_tell: "quiet (emit (Tell x))"
  by (rule quiet_emit) (simp add: priv_def)

lemma made_init: "made s [] (cap_permitted s) (cap_effective s) s"
  by (simp add: made_def)

lemma made_keeps: "made s0 X cp ce s \<Longrightarrow> keeps s s' \<Longrightarrow> made s0 X cp ce s'"
  by (auto simp: made_def keeps_def elim: prefix_order.trans)

text \<open>One step of a run: a quiet step, a checked call, the capability installation.\<close>

lemma wq:
  assumes "quiet m" and "made s0 X cp ce s"
    and "\<And>s'. made s0 X cp ce s' \<Longrightarrow> Qa Aborted s'"
    and "\<And>a s'. made s0 X cp ce s' \<Longrightarrow> wp (f a) Qn Qa s'"
  shows "wp (bnd m f) Qn Qa s"
  unfolding wp_bnd using assms by (blast intro: wp_quiet made_keeps)

lemma wchk:
  assumes "made s0 X cp ce s" and "priv_call c" and "\<And>e p. c \<noteq> Capset e p"
    and "\<And>s'. made s0 (X @ [Sys c (- 1)]) cp ce s' \<Longrightarrow> Qa Aborted s'"
    and "\<And>s'. made s0 (X @ [Sys c 0]) cp ce s' \<Longrightarrow> wp f Qn Qa s'"
  shows "wp (bnd (sys E c) (\<lambda>rc. bnd (if rc = - 1 then fatal msg else ret ()) (\<lambda>_. f))) Qn Qa s"
proof -
  have a: "made s0 (X @ [Sys c (- 1)]) cp ce (s\<lparr>trace := trace s @ [Sys c (- 1), Log FATAL msg]\<rparr>)"
    using assms(1,2) by (auto simp: made_def priv_def prefix_def)
  have b: "made s0 (X @ [Sys c 0]) cp ce ((effect c s)\<lparr>trace := trace s @ [Sys c 0]\<rparr>)"
    using assms(1,2,3) by (cases c) (auto simp: made_def priv_def prefix_def effect_def)
  show ?thesis
    using assms(4) [OF a] assms(5) [OF b] by (simp add: wp_sys)
qed

lemma wcap:
  assumes "made s0 X cp ce s"
    and "\<And>s'. made s0 (X @ [Sys (Capset e p) (- 1)]) cp ce s' \<Longrightarrow> Qa Aborted s'"
    and "\<And>s'. made s0 (X @ [Sys (Capset e p) 0]) (ucast p) (ucast e) s' \<Longrightarrow> wp f Qn Qa s'"
  shows "wp (bnd (bnd (sys E (Capset e p)) (\<lambda>rc. if rc \<noteq> 0 then fatal msg else ret ()))
              (\<lambda>_. f)) Qn Qa s"
proof -
  have a: "made s0 (X @ [Sys (Capset e p) (- 1)]) cp ce
             (s\<lparr>trace := trace s @ [Sys (Capset e p) (- 1), Log FATAL msg]\<rparr>)"
    using assms(1) by (auto simp: made_def priv_def priv_call_def prefix_def)
  have b: "made s0 (X @ [Sys (Capset e p) 0]) (ucast p) (ucast e)
             ((effect (Capset e p) s)\<lparr>trace := trace s @ [Sys (Capset e p) 0]\<rparr>)"
    using assms(1) by (auto simp: made_def priv_def priv_call_def prefix_def effect_def)
  show ?thesis
    using assms(2) [OF a] assms(3) [OF b] by (simp add: wp_sys)
qed

lemma wlast:
  assumes "made s0 X cp ce s" and "\<not> priv e"
    and "\<And>s'. made s0 X cp ce s' \<Longrightarrow> Qn () s'"
  shows "wp (emit e) Qn Qa s"
proof -
  have "made s0 X cp ce (s\<lparr>trace := trace s @ [e]\<rparr>)"
    using assms(1,2) by (auto simp: made_def prefix_def)
  then show ?thesis using assms(3) by simp
qed

lemmas skel_simps = made_def child_calls_def child_partial_def

lemma child_branch_split:
  "child_branch E a =
     bnd (store_gMallocLeakZygoteChild 1) (\<lambda>_.
     bnd (if uid a \<noteq> 0 then EnableKeepCapabilities E else ret ()) (\<lambda>_.
     bnd (MountExternalStorage (uid a) (mount_external a)) (\<lambda>_.
     bnd (SetGids E (javaGids a)) (\<lambda>_.
     bnd (SetRLimits E (javaRlimits a)) (\<lambda>_.
     child_post E a)))))"
  by (simp add: child_branch_def child_post_def)

lemma made_trans: "made s0 X cp ce s1 \<Longrightarrow> made s1 Y cp' ce' s2 \<Longrightarrow> made s0 (X @ Y) cp' ce' s2"
  by (auto simp: made_def elim: prefix_order.trans)

lemma child_post_skel:
  "wp (child_post E a)
     (\<lambda>u s'. made s (child_calls a 0 0 0)
                (ucast (ucast (permittedCapabilities a) :: 32 word))
                (ucast (ucast (effectiveCapabilities a) :: 32 word)) s')
     (\<lambda>r s'. r = Aborted \<and> prefix (trace s) (trace s')
          \<and> (\<exists>X \<in> set (child_partial a). filter priv (trace s') = filter priv (trace s) @ X))
     s"
  unfolding child_post_def SetCapabilities_def
  apply (rule wchk [OF made_init], simp add: priv_call_def, simp, simp add: skel_simps)
  apply (erule wchk, simp add: priv_call_def, simp, simp add: skel_simps)
  apply (erule wq [OF quiet_NeedsNoRandomizeWorkaround], simp add: skel_simps)
  apply (erule wq [OF quiet_personality_block], simp add: skel_simps)
  apply (erule wcap, simp add: skel_simps)
  apply (erule wq [OF quiet_SetSchedulerPolicy], simp add: skel_simps)
  apply (erule wq [OF quiet_checked_utf_chars], simp add: skel_simps)
  apply (erule wq [OF quiet_checked_utf_chars], simp add: skel_simps)
  apply (erule wq [OF quiet_selinux], simp add: skel_simps)
  apply (erule wq [OF quiet_check], simp add: skel_simps)
  apply (erule wq [OF quiet_tell], simp add: skel_simps)
  apply (erule wq [OF quiet_EnableDebugFeatures], simp add: skel_simps)
  apply (erule wq [OF quiet_UnsetSigChldHandler], simp add: skel_simps)
  apply (erule wlast, simp add: priv_def, simp add: child_calls_def)
  done

lemma child_post_after:
  assumes e: "made s [] cp ce s5"
  shows "wp (child_post E a)
     (\<lambda>u s'. made s (child_calls a 0 0 0)
                (ucast (ucast (permittedCapabilities a) :: 32 word))
                (ucast (ucast (effectiveCapabilities a) :: 32 word)) s')
     (\<lambda>r s'. r = Aborted \<and> prefix (trace s) (trace s')
          \<and> (\<exists>X \<in> set (child_partial a). filter priv (trace s') = filter priv (trace s) @ X))
     s5"
proof (rule wp_mono [OF child_post_skel [of E a s5]])
  fix u s'
  assume "made s5 (child_calls a 0 0 0)
            (ucast (ucast (permittedCapabilities a) :: 32 word))
            (ucast (ucast (effectiveCapabilities a) :: 32 word)) s'"
  from made_trans [OF e this]
  show "made s (child_calls a 0 0 0)
            (ucast (ucast (permittedCapabilities a) :: 32 word))
            (ucast (ucast (effectiveCapabilities a) :: 32 word)) s'"
    by simp
next
  fix r s'
  assume "r = Aborted \<and> prefix (trace s5) (trace s') \<and>
      (\<exists>X\<in>set (child_partial a). filter priv (trace s') = filter priv (trace s5) @ X)"
  then show "r = Aborted \<and> prefix (trace s) (trace s') \<and>
      (\<exists>X\<in>set (child_partial a). filter priv (trace s') = filter priv (trace s) @ X)"
    using e by (auto simp: made_def elim: prefix_order.trans)
qed

lemma child_branch_skel:
  "wp (child_branch E a)
     (\<lambda>u s'. made s (child_calls a 0 0 0)
                (ucast (ucast (permittedCapabilities a) :: 32 word))
                (ucast (ucast (effectiveCapabilities a) :: 32 word)) s')
     (\<lambda>r s'. r = Aborted \<and> prefix (trace s) (trace s')
          \<and> (\<exists>X \<in> set (child_partial a). filter priv (trace s') = filter priv (trace s) @ X))
     s"
  unfolding child_branch_split
  apply (rule wq [OF quiet_store made_init], simp add: skel_simps)
  apply (erule wq [OF quiet_if [OF quiet_EnableKeepCapabilities quiet_ret]], simp add: skel_simps)
  apply (erule wq [OF quiet_MountExternalStorage], simp add: skel_simps)
  apply (erule wq [OF quiet_SetGids], simp add: skel_simps)
  apply (erule wq [OF quiet_SetRLimits], simp add: skel_simps)
  apply (erule child_post_after)
  done

lemma wfork:
  assumes "made s0 X cp ce s"
    and "\<And>pid s'. made s0 (X @ [Sys Fork pid]) cp ce s' \<Longrightarrow> wp (f pid) Qn Qa s'"
  shows "wp (bnd (fork E) f) Qn Qa s"
proof -
  have "made s0 (X @ [Sys Fork (fork_ret E (trace s))]) cp ce (final (fork E s))"
    using assms(1)
    by (auto simp: made_def priv_def priv_call_def prefix_def fork_def final_def Let_def
        split: option.splits)
  moreover have "\<exists>s'. fork E s = Returns (fork_ret E (trace s)) s'"
    by (simp add: fork_def Let_def split: option.splits)
  ultimately show ?thesis
    using assms(2) by (auto simp: wp_def bnd_def final_def)
qed

lemma fork_and_specialize_tail:
  assumes e: "made s [Sys Fork pid] (cap_permitted s) (cap_effective s) s6"
  shows "wp (bnd (if pid = 0 then child_branch E a else ret ()) (\<lambda>_. ret pid))
     (\<lambda>pid s'.
        if pid = 0
        then made s (Sys Fork 0 # child_calls a 0 0 0)
               (ucast (ucast (permittedCapabilities a) :: 32 word))
               (ucast (ucast (effectiveCapabilities a) :: 32 word)) s'
        else made s [Sys Fork pid] (cap_permitted s) (cap_effective s) s')
     (\<lambda>r s'. r = Aborted \<and> prefix (trace s) (trace s') \<and>
        (filter priv (trace s') = filter priv (trace s) \<or>
         (\<exists>X \<in> set (child_partial a).
            filter priv (trace s') = filter priv (trace s) @ Sys Fork 0 # X)))
     s6"
proof (cases "pid = 0")
  case True
  have p: "prefix (trace s) (trace s6)"
    and f: "filter priv (trace s6) = filter priv (trace s) @ [Sys Fork 0]"
    using e True by (simp_all add: made_def)
  have "wp (child_branch E a)
     (\<lambda>u s'. made s (Sys Fork 0 # child_calls a 0 0 0)
               (ucast (ucast (permittedCapabilities a) :: 32 word))
               (ucast (ucast (effectiveCapabilities a) :: 32 word)) s')
     (\<lambda>r s'. r = Aborted \<and> prefix (trace s) (trace s') \<and>
        (filter priv (trace s') = filter priv (trace s) \<or>
         (\<exists>X \<in> set (child_partial a).
            filter priv (trace s') = filter priv (trace s) @ Sys Fork 0 # X)))
     s6"
  proof (rule wp_mono [OF child_branch_skel [of E a s6]])
    fix u s'
    assume "made s6 (child_calls a 0 0 0)
              (ucast (ucast (permittedCapabilities a) :: 32 word))
              (ucast (ucast (effectiveCapabilities a) :: 32 word)) s'"
    from made_trans [OF e this] True
    show "made s (Sys Fork 0 # child_calls a 0 0 0)
              (ucast (ucast (permittedCapabilities a) :: 32 word))
              (ucast (ucast (effectiveCapabilities a) :: 32 word)) s'"
      by simp
  next
    fix r s'
    assume "r = Aborted \<and> prefix (trace s6) (trace s') \<and>
      (\<exists>X\<in>set (child_partial a). filter priv (trace s') = filter priv (trace s6) @ X)"
    then show "r = Aborted \<and> prefix (trace s) (trace s') \<and>
        (filter priv (trace s') = filter priv (trace s) \<or>
         (\<exists>X \<in> set (child_partial a).
            filter priv (trace s') = filter priv (trace s) @ Sys Fork 0 # X))"
      using p f by (auto elim: prefix_order.trans)
  qed
  then show ?thesis using True by simp
next
  case False
  then show ?thesis using e by simp
qed

text \<open>
  The privileged calls of one run of \<^verbatim>\<open>ForkAndSpecializeCommon\<close>, and the capability
  sets at its end.
\<close>

lemma fork_and_specialize_skel:
  "wp (ForkAndSpecializeCommon E a)
     (\<lambda>pid s'.
        if pid = 0
        then made s (Sys Fork 0 # child_calls a 0 0 0)
               (ucast (ucast (permittedCapabilities a) :: 32 word))
               (ucast (ucast (effectiveCapabilities a) :: 32 word)) s'
        else made s [Sys Fork pid] (cap_permitted s) (cap_effective s) s')
     (\<lambda>r s'. r = Aborted \<and> prefix (trace s) (trace s') \<and>
        (filter priv (trace s') = filter priv (trace s) \<or>
         (\<exists>X \<in> set (child_partial a).
            filter priv (trace s') = filter priv (trace s) @ Sys Fork 0 # X)))
     s"
  unfolding ForkAndSpecializeCommon_def
  apply (rule wq [OF quiet_ask made_init], simp add: made_def)
  apply (erule wq [OF quiet_check], simp add: made_def)
  apply (erule wq [OF quiet_ask], simp add: made_def)
  apply (erule wq [OF quiet_check], simp add: made_def)
  apply (erule wq [OF quiet_SetSigChldHandler], simp add: made_def)
  apply (erule wfork)
  apply (simp only: append_Nil)
  apply (erule fork_and_specialize_tail)
  done


lemma ucast_ucast_low: "(ucast (ucast (x :: 64 word) :: 32 word) :: 64 word) = take_bit 32 x"
  by (rule bit_word_eqI) (auto simp: bit_simps)

lemma made_issued:
  assumes "made s X cp ce s'"
  shows "filter priv (issued s s') = X" and "trace s' = trace s @ issued s s'"
proof -
  from assms obtain zs where zs: "trace s' = trace s @ zs"
    by (auto simp: made_def prefix_def)
  then show "trace s' = trace s @ issued s s'"
    by (simp add: issued_def)
  from assms zs show "filter priv (issued s s') = X"
    by (simp add: made_def issued_def)
qed

lemma stopped_issued:
  assumes "prefix (trace s) (trace s')" and "filter priv (trace s') = filter priv (trace s) @ X"
  shows "filter priv (issued s s') = X"
  using made_issued(1) [of s X "cap_permitted s'" "cap_effective s'" s'] assms
  by (simp add: made_def)

lemma identity_calls_priv: "identity_calls (filter priv tr) = identity_calls tr"
  unfolding identity_calls_def filter_filter
  by (rule filter_cong)
    (auto simp: priv_def priv_call_def identity_call_def split: event.splits call.splits)

lemma identity_calls_eval:
  "identity_calls (Sys Fork pid # X) = identity_calls X"
  "identity_calls (child_calls a rg ru rc) = [Sys (Setgid (gid a)) rg, Sys (Setuid (uid a)) ru]"
  "identity_calls [Sys (Setgid g) rg] = [Sys (Setgid g) rg]"
  "identity_calls [Sys (Setgid g) rg, Sys (Setuid u) ru] = [Sys (Setgid g) rg, Sys (Setuid u) ru]"
  "identity_calls [] = []"
  unfolding identity_calls_def identity_call_def child_calls_def by simp_all

lemma capset_calls_priv: "capset_calls (filter priv tr) = capset_calls tr"
  unfolding capset_calls_def filter_filter
  by (rule filter_cong) (auto simp: priv_def priv_call_def split: event.splits call.splits)

lemma capset_calls_eval:
  "capset_calls (Sys Fork pid # X) = capset_calls X"
  "capset_calls (child_calls a rg ru rc) =
     [Sys (Capset (ucast (effectiveCapabilities a)) (ucast (permittedCapabilities a))) rc]"
  "capset_calls [Sys (Setgid g) rg] = []"
  "capset_calls [Sys (Setgid g) rg, Sys (Setuid u) ru] = []"
  "capset_calls [] = []"
  unfolding capset_calls_def child_calls_def by simp_all

text \<open>The privileged calls issued by a run of \<^verbatim>\<open>ForkAndSpecializeCommon\<close>, by outcome.\<close>

lemma fork_and_specialize_returns:
  assumes "ForkAndSpecializeCommon E a s = Returns pid s'"
  shows "pid = 0 \<Longrightarrow> filter priv (issued s s') = Sys Fork 0 # child_calls a 0 0 0"
    and "pid = 0 \<Longrightarrow> cap_permitted s' = take_bit 32 (permittedCapabilities a)"
    and "pid = 0 \<Longrightarrow> cap_effective s' = take_bit 32 (effectiveCapabilities a)"
    and "pid \<noteq> 0 \<Longrightarrow> filter priv (issued s s') = [Sys Fork pid]"
    and "pid \<noteq> 0 \<Longrightarrow> cap_permitted s' = cap_permitted s \<and> cap_effective s' = cap_effective s"
  using wp_Returns [OF fork_and_specialize_skel assms]
  by (auto simp: ucast_ucast_low made_issued(1) split: if_splits) (auto simp: made_def)

lemma fork_and_specialize_stops:
  assumes "ForkAndSpecializeCommon E a s = Stops r s'"
  shows "r = Aborted"
    and "filter priv (issued s s') = [] \<or>
         (\<exists>X \<in> set (child_partial a). filter priv (issued s s') = Sys Fork 0 # X)"
proof -
  have *: "r = Aborted \<and> prefix (trace s) (trace s') \<and>
        (filter priv (trace s') = filter priv (trace s) \<or>
         (\<exists>X \<in> set (child_partial a).
            filter priv (trace s') = filter priv (trace s) @ Sys Fork 0 # X))"
    using wp_Stops [OF fork_and_specialize_skel assms] .
  then show "r = Aborted" by simp
  from * show "filter priv (issued s s') = [] \<or>
         (\<exists>X \<in> set (child_partial a). filter priv (issued s s') = Sys Fork 0 # X)"
    using stopped_issued [of s s' "[]"] stopped_issued [of s s']
    by auto
qed

lemmas run_defs = ForkAndSpecializeCommon_def child_branch_def bnd_def ret_def ask_def fatal_def
  emit_def sys_def effect_def fork_def SetSigChldHandler_def UnsetSigChldHandler_def
  store_gMallocLeakZygoteChild_def EnableKeepCapabilities_def MountExternalStorage_def
  MOUNT_EXTERNAL_NONE_def SetGids_def SetRLimits_def NeedsNoRandomizeWorkaround_def
  SetCapabilities_def SetSchedulerPolicy_def checked_utf_chars_def EnableDebugFeatures_def
  DEBUG_ENABLE_CHECKJNI_def DEBUG_ENABLE_JNI_LOGGING_def DEBUG_ENABLE_DEBUGGER_def
  DEBUG_ENABLE_ASSERT_def DEBUG_ENABLE_SAFEMODE_def Let_def

text \<open>The run of a child in the calm environment, for any two capability bitmasks.\<close>

lemma calm_child_run:
  "ForkAndSpecializeCommon calm_env
     (plain_args\<lparr>permittedCapabilities := p, effectiveCapabilities := e\<rparr>) fresh_proc =
   Returns 0
     (fresh_proc\<lparr>trace :=
        [Ask IsZygote True, Ask PreZygoteFork True, Sys (Sigaction_SIGCHLD SigChldHandler_fn) 0,
         Sys Fork 0, Store ''gMallocLeakZygoteChild'' 1, Sys Prctl_SET_KEEPCAPS 0,
         Sys (Setgid 10001) 0, Sys (Setuid 10001) 0, Sys (Capset (ucast e) (ucast p)) 0,
         Sys Set_sched_policy 0,
         Sys (Selinux_android_setcontext 10001 False None None) 0,
         Tell InitAfterFork, Tell (SetJdwpAllowed False), Sys (Sigaction_SIGCHLD SIG_DFL) 0,
         Tell DidForkFromZygote],
       gMallocLeakZygoteChild := 1,
       cap_permitted := take_bit 32 p, cap_effective := take_bit 32 e\<rparr>)"
  by (simp add: run_defs calm_env_def plain_args_def fresh_proc_def ucast_ucast_low)


lemma dead_child_run:
  "ForkAndSpecializeCommon dead_child_env a fresh_proc =
   Returns 1234
     (fresh_proc\<lparr>trace :=
        [Ask IsZygote True, Ask PreZygoteFork True, Sys (Sigaction_SIGCHLD SigChldHandler_fn) 0,
         Sys Fork 1234],
        zombies := [(1234, WExited 1)]\<rparr>)"
  by (simp add: run_defs dead_child_env_def calm_env_def fresh_proc_def)

text \<open>When \<^verbatim>\<open>fork\<close> did not return a child's pid, the singleton entry point adds nothing.\<close>

lemma fork_system_server_no_child:
  assumes "ForkAndSpecializeCommon E
            \<lparr>uid = u, gid = g, javaGids = gids, debug_flags = flags, javaRlimits = rlimits,
             permittedCapabilities = p, effectiveCapabilities = e,
             mount_external = MOUNT_EXTERNAL_NONE, java_se_info = None, java_se_name = None,
             is_system_server = True\<rparr> s = out"
    and "\<And>pid s'. out = Returns pid s' \<Longrightarrow> pid \<le> 0"
  shows "Zygote_nativeForkSystemServer E u g gids flags rlimits p e s = out"
  using assms
  by (cases out) (auto simp: Zygote_nativeForkSystemServer_def bnd_def ret_def)

subsection \<open>The reaper\<close>

lemma reaped_append [simp]: "reaped (xs @ ys) = reaped xs @ reaped ys"
  by (simp add: reaped_def)

lemma kills_append [simp]: "kills (xs @ ys) = kills xs + kills ys"
  by (simp add: kills_def)

lemma reaped_eval:
  "reaped [] = []"
  "reaped (Sys (Waitpid p) r # xs) = (if r > 0 then [r] else []) @ reaped xs"
  "reaped [Sys (Kill_self sig) r] = []"
  by (simp_all add: reaped_def)

lemma kills_eval:
  "kills [] = 0"
  "kills (Sys (Waitpid p) r # xs) = kills xs"
  "kills [Sys (Kill_self SIGKILL) r] = 1"
  by (simp_all add: kills_def)

lemma reaped_logs: "list_all is_log evs \<Longrightarrow> reaped evs = []"
  by (induction evs) (auto simp: reaped_def is_log_def split: event.splits)

lemma kills_logs: "list_all is_log evs \<Longrightarrow> kills evs = 0"
  by (induction evs) (auto simp: kills_def is_log_def split: event.splits)

lemma logging_ret: "logging (ret ())"
  unfolding logging_def ret_def
  by (intro allI exI [of _ "[]"]) simp

lemma logging_emit: "logging (emit (Log sev msg))"
  unfolding logging_def emit_def
  by (intro allI exI [of _ "[Log sev msg]"]) (simp add: is_log_def)

lemma logging_bnd:
  assumes "logging m" and "\<And>u. logging (f u)"
  shows "logging (bnd m f)"
  unfolding logging_def
proof
  fix s
  from assms(1) obtain evs1 where 1: "m s = Returns () (s\<lparr>trace := trace s @ evs1\<rparr>)"
    "list_all is_log evs1"
    unfolding logging_def by blast
  from assms(2) [of "()", unfolded logging_def, THEN spec, of "s\<lparr>trace := trace s @ evs1\<rparr>"]
  obtain evs2 where
    2: "f () (s\<lparr>trace := trace s @ evs1\<rparr>) = Returns () (s\<lparr>trace := trace s @ evs1 @ evs2\<rparr>)"
    "list_all is_log evs2"
    by auto
  show "\<exists>evs. bnd m f s = Returns () (s\<lparr>trace := trace s @ evs\<rparr>) \<and> list_all is_log evs"
    using 1 2 by (intro exI [of _ "evs1 @ evs2"]) (simp add: bnd_def)
qed

lemma logging_if: "logging m \<Longrightarrow> logging n \<Longrightarrow> logging (if b then m else n)"
  by simp

lemma logging_log_child_status: "logging (log_child_status pid st)"
  unfolding log_child_status_def
  by (intro logging_if logging_bnd logging_emit logging_ret)

lemma reap_body_other:
  assumes "pid \<noteq> gSystemServerPid s"
  shows "\<exists>evs. reap_body pid st s = Returns () (s\<lparr>trace := trace s @ evs\<rparr>) \<and> list_all is_log evs"
proof -
  from logging_log_child_status [of pid st] obtain evs where
    "log_child_status pid st s = Returns () (s\<lparr>trace := trace s @ evs\<rparr>)" "list_all is_log evs"
    unfolding logging_def by blast
  then show ?thesis
    using assms by (intro exI [of _ evs]) (simp add: reap_body_def bnd_def gets_def ret_def)
qed

lemma reap_body_server:
  assumes "pid = gSystemServerPid s"
  shows "\<exists>evs. reap_body pid st s =
           Stops Killed (s\<lparr>trace := trace s @ evs @ [Sys (Kill_self SIGKILL) 0]\<rparr>) \<and>
           list_all is_log evs"
proof -
  from logging_log_child_status [of pid st] obtain evs where
    "log_child_status pid st s = Returns () (s\<lparr>trace := trace s @ evs\<rparr>)" "list_all is_log evs"
    unfolding logging_def by blast
  then show ?thesis
    using assms
    by (intro exI [of _ "evs @ [Log ERROR [Str ''Exit zygote because system server ('', Num pid,
                             Str '') has terminated'']]"])
      (simp add: reap_body_def bnd_def gets_def ret_def emit_def kill_self_def is_log_def)
qed

lemma drained_simps:
  "drained g [] = []"
  "fst z = g \<Longrightarrow> drained g (z # zs) = [z]"
  "fst z \<noteq> g \<Longrightarrow> drained g (z # zs) = z # drained g zs"
  by (simp_all add: drained_def)

lemma left_behind_simps:
  "left_behind g [] = []"
  "fst z = g \<Longrightarrow> left_behind g (z # zs) = zs"
  "fst z \<noteq> g \<Longrightarrow> left_behind g (z # zs) = left_behind g zs"
  by (simp_all add: left_behind_def)

lemma waitpid_any_empty:
  assumes "zombies s = []"
  shows "waitpid (- 1) s =
     Returns (if running s = [] then - 1 else 0, WUntouched)
       (s\<lparr>trace := trace s @ [Sys (Waitpid (- 1)) (if running s = [] then - 1 else 0)],
          zombies := []\<rparr>)"
  using assms by (simp add: waitpid_def)

lemma waitpid_any_pending:
  assumes "zombies s = z # zs"
  shows "waitpid (- 1) s =
     Returns (fst z, snd z) (s\<lparr>trace := trace s @ [Sys (Waitpid (- 1)) (fst z)], zombies := zs\<rparr>)"
  using assms by (simp add: waitpid_def)

text \<open>
  One drain: the loop reaps the pending children in order up to and including the first
  one that is the registered singleton, where it kills the process; if there is none it
  reaps them all and returns what the last \<^verbatim>\<open>waitpid\<close> returned.
\<close>

lemma reap_loop_spec:
  assumes "\<forall>z \<in> set (zombies s). fst z > 0"
  shows "\<exists>evs. trace (final (reap_loop s)) = trace s @ evs \<and>
           reaped evs = map fst (drained (gSystemServerPid s) (zombies s)) \<and>
           zombies (final (reap_loop s)) = left_behind (gSystemServerPid s) (zombies s) \<and>
           (if gSystemServerPid s \<in> fst ` set (zombies s)
            then (\<exists>s'. reap_loop s = Stops Killed s') \<and> kills evs = 1 \<and>
                 last evs = Sys (Kill_self SIGKILL) 0
            else reap_loop s =
                   Returns (if running s = [] then - 1 else 0) (final (reap_loop s)) \<and>
                 kills evs = 0)"
  using assms
proof (induction "zombies s" arbitrary: s)
  case Nil
  then have z: "zombies s = []" by simp
  have r: "reap_loop s =
     Returns (if running s = [] then - 1 else 0)
       (s\<lparr>trace := trace s @ [Sys (Waitpid (- 1)) (if running s = [] then - 1 else 0)],
          zombies := []\<rparr>)"
    by (subst reap_loop.simps) (simp add: waitpid_any_empty [OF z])
  show ?case
    by (rule exI [of _ "[Sys (Waitpid (- 1)) (if running s = [] then - 1 else 0)]"])
      (simp add: r z final_def drained_simps left_behind_simps reaped_eval kills_eval)
next
  case (Cons z zs)
  from Cons.hyps(2) have zs: "zombies s = z # zs" by simp
  with Cons.prems have pos: "fst z > 0" by simp
  let ?s1 = "s\<lparr>trace := trace s @ [Sys (Waitpid (- 1)) (fst z)], zombies := zs\<rparr>"
  have w: "waitpid (- 1) s = Returns (fst z, snd z) ?s1"
    by (rule waitpid_any_pending [OF zs])
  show ?case
  proof (cases "fst z = gSystemServerPid s")
    case True
    from reap_body_server [of "fst z" ?s1 "snd z"] True obtain evs where
      b: "reap_body (fst z) (snd z) ?s1 =
            Stops Killed (?s1\<lparr>trace := trace ?s1 @ evs @ [Sys (Kill_self SIGKILL) 0]\<rparr>)"
      and l: "list_all is_log evs"
      by auto
    have r: "reap_loop s = Stops Killed (?s1\<lparr>trace := trace ?s1 @ evs @ [Sys (Kill_self SIGKILL) 0]\<rparr>)"
      by (subst reap_loop.simps) (simp add: w pos b)
    show ?thesis
      using True l pos
      by (intro exI [of _ "[Sys (Waitpid (- 1)) (fst z)] @ evs @ [Sys (Kill_self SIGKILL) 0]"])
        (simp add: r zs final_def drained_simps left_behind_simps reaped_logs kills_logs pos
          reaped_eval kills_eval)
  next
    case False
    from reap_body_other [of "fst z" ?s1 "snd z"] False obtain evs where
      b: "reap_body (fst z) (snd z) ?s1 = Returns () (?s1\<lparr>trace := trace ?s1 @ evs\<rparr>)"
      and l: "list_all is_log evs"
      by auto
    let ?s2 = "?s1\<lparr>trace := trace ?s1 @ evs\<rparr>"
    have r: "reap_loop s = reap_loop ?s2"
      by (subst reap_loop.simps) (simp add: w pos b)
    have "zs = zombies ?s2" by simp
    moreover have "\<forall>z \<in> set (zombies ?s2). fst z > 0"
      using Cons.prems zs by simp
    ultimately obtain evs' where
      ih: "trace (final (reap_loop ?s2)) = trace ?s2 @ evs'"
        "reaped evs' = map fst (drained (gSystemServerPid ?s2) (zombies ?s2))"
        "zombies (final (reap_loop ?s2)) = left_behind (gSystemServerPid ?s2) (zombies ?s2)"
        "if gSystemServerPid ?s2 \<in> fst ` set (zombies ?s2)
            then (\<exists>s'. reap_loop ?s2 = Stops Killed s') \<and> kills evs' = 1 \<and>
                 last evs' = Sys (Kill_self SIGKILL) 0
            else reap_loop ?s2 =
                   Returns (if running ?s2 = [] then - 1 else 0) (final (reap_loop ?s2)) \<and>
                 kills evs' = 0"
      using Cons.hyps(1) [of ?s2] by blast
    show ?thesis
    proof (cases "gSystemServerPid s \<in> fst ` set zs")
      case True
      with ih(4) obtain s' where k: "reap_loop ?s2 = Stops Killed s'" "kills evs' = 1"
        "last evs' = Sys (Kill_self SIGKILL) 0"
        by auto
      from k(2) have ne: "evs' \<noteq> []" by (auto simp: kills_eval)
      show ?thesis
        using False True l ih(1,2,3) k ne pos
        by (intro exI [of _ "[Sys (Waitpid (- 1)) (fst z)] @ evs @ evs'"])
          (simp add: r zs drained_simps left_behind_simps reaped_logs kills_logs
            reaped_eval kills_eval)
    next
      case out: False
      with ih(4) have k: "reap_loop ?s2 =
          Returns (if running s = [] then - 1 else 0) (final (reap_loop ?s2))" "kills evs' = 0"
        by auto
      show ?thesis
        using False out l ih(1,2,3) k pos
        by (intro exI [of _ "[Sys (Waitpid (- 1)) (fst z)] @ evs @ evs'"])
          (simp add: r zs drained_simps left_behind_simps reaped_logs kills_logs
            reaped_eval kills_eval)
    qed
  qed
qed

lemma sigchld_handler_spec:
  assumes "\<forall>z \<in> set (zombies s). fst z > 0"
  shows "reaped (issued s (final (SigChldHandler s)))
           = map fst (drained (gSystemServerPid s) (zombies s)) \<and>
         zombies (final (SigChldHandler s)) = left_behind (gSystemServerPid s) (zombies s) \<and>
         (if gSystemServerPid s \<in> fst ` set (zombies s)
          then SigChldHandler s = Stops Killed (final (SigChldHandler s)) \<and>
               kills (issued s (final (SigChldHandler s))) = 1 \<and>
               last (trace (final (SigChldHandler s))) = Sys (Kill_self SIGKILL) 0
          else SigChldHandler s = Returns () (final (SigChldHandler s)) \<and>
               kills (issued s (final (SigChldHandler s))) = 0)"
proof -
  from reap_loop_spec [OF assms] obtain evs where
    e: "trace (final (reap_loop s)) = trace s @ evs"
       "reaped evs = map fst (drained (gSystemServerPid s) (zombies s))"
       "zombies (final (reap_loop s)) = left_behind (gSystemServerPid s) (zombies s)"
    and c: "if gSystemServerPid s \<in> fst ` set (zombies s)
            then (\<exists>s'. reap_loop s = Stops Killed s') \<and> kills evs = 1 \<and>
                 last evs = Sys (Kill_self SIGKILL) 0
            else reap_loop s =
                   Returns (if running s = [] then - 1 else 0) (final (reap_loop s)) \<and>
                 kills evs = 0"
    by blast
  show ?thesis
  proof (cases "gSystemServerPid s \<in> fst ` set (zombies s)")
    case True
    with c obtain s' where k: "reap_loop s = Stops Killed s'" "kills evs = 1"
      "last evs = Sys (Kill_self SIGKILL) 0"
      by auto
    from k(2) have ne: "evs \<noteq> []" by (auto simp: kills_eval)
    have h: "SigChldHandler s = Stops Killed s'"
      by (simp add: SigChldHandler_def bnd_def k(1))
    show ?thesis
      using True e k ne by (simp add: h final_def issued_def)
  next
    case False
    let ?r = "if running s = [] then - 1 else (0::int)"
    let ?s1 = "final (reap_loop s)"
    from False c have k: "reap_loop s = Returns ?r ?s1" "kills evs = 0"
      by auto
    have h: "SigChldHandler s =
        Returns () (if ?r < 0
                    then ?s1\<lparr>trace := trace ?s1 @ [Log WARNING [Str ''Zygote SIGCHLD error in waitpid'']]\<rparr>
                    else ?s1)"
      by (subst SigChldHandler_def, simp only: bnd_def, subst k(1)) (simp add: emit_def ret_def)
    have w: "reaped [Log WARNING [Str ''Zygote SIGCHLD error in waitpid'']] = []"
      "kills [Log WARNING [Str ''Zygote SIGCHLD error in waitpid'']] = 0"
      by (simp_all add: reaped_def kills_def)
    show ?thesis
      using False e k(2) w by (simp add: h final_def issued_def)
  qed
qed

lemma drained_all:
  "g \<notin> fst ` set zs \<Longrightarrow> drained g zs = zs \<and> left_behind g zs = []"
  by (induction zs) (auto simp: drained_simps left_behind_simps)

lemma drained_prefix: "prefix (drained g zs) zs"
proof (induction zs)
  case Nil
  show ?case by (simp add: drained_simps)
next
  case (Cons z zs)
  then show ?case by (cases "fst z = g") (simp_all add: drained_simps)
qed

lemma drained_mem: "g \<in> fst ` set (drained g zs) \<longleftrightarrow> g \<in> fst ` set zs"
proof (induction zs)
  case Nil
  show ?case by (simp add: drained_simps)
next
  case (Cons z zs)
  then show ?case by (cases "fst z = g") (auto simp: drained_simps)
qed


subsection \<open>Resource limits\<close>

lemma SetRLimits_rows_spec:
  "case SetRLimits_rows E rows s of
     Returns u s' \<Rightarrow>
       s' = s\<lparr>trace := trace s @ map applied rows\<rparr> \<and> (\<forall>row \<in> set rows. length row = 3)
   | Stops r s' \<Rightarrow>
       r = Aborted \<and>
       (\<exists>k < length rows.
          s' = s\<lparr>trace := trace s @ map applied (take k rows) @ refused (rows ! k)\<rparr> \<and>
          (\<forall>row \<in> set (take k rows). length row = 3))"
proof (induction rows arbitrary: s)
  case Nil
  show ?case by (simp add: ret_def)
next
  case (Cons row rows)
  show ?case
  proof (cases "length row \<noteq> 3 \<or> fails E (trace s) (Setrlimit (row ! 0) (row ! 1) (row ! 2))")
    case True
    then have "SetRLimits_rows E (row # rows) s =
        Stops Aborted (s\<lparr>trace := trace s @ refused row\<rparr>)"
      by (auto simp: bnd_def fatal_def ret_def sys_def refused_def)
    then show ?thesis
      by (auto intro!: exI [of _ 0])
  next
    case False
    let ?s1 = "s\<lparr>trace := trace s @ [applied row]\<rparr>"
    from False have step: "SetRLimits_rows E (row # rows) s = SetRLimits_rows E rows ?s1"
      by (simp add: bnd_def fatal_def ret_def sys_def effect_def applied_def)
    show ?thesis
    proof (cases "SetRLimits_rows E rows ?s1")
      case (Returns u s')
      with Cons.IH [of ?s1] False show ?thesis
        by (subst step) simp
    next
      case (Stops r s')
      with Cons.IH [of ?s1] obtain k where k: "k < length rows"
        "s' = ?s1\<lparr>trace := trace ?s1 @ map applied (take k rows) @ refused (rows ! k)\<rparr>"
        "\<forall>row \<in> set (take k rows). length row = 3" "r = Aborted"
        by auto
      show ?thesis
        using k False Stops
        by (subst step) (auto intro!: exI [of _ "Suc k"])
    qed
  qed
qed

lemma SetRLimits_rows_refused:
  assumes "row \<in> set rows"
    and "length row \<noteq> 3 \<or> (\<forall>tr. fails E tr (Setrlimit (row ! 0) (row ! 1) (row ! 2)))"
  shows "\<exists>s'. SetRLimits_rows E rows s = Stops Aborted s'"
  using assms(1)
proof (induction rows arbitrary: s)
  case Nil
  then show ?case by simp
next
  case (Cons r rows)
  show ?case
  proof (cases "length r \<noteq> 3 \<or> fails E (trace s) (Setrlimit (r ! 0) (r ! 1) (r ! 2))")
    case True
    then show ?thesis
      by (auto simp: bnd_def fatal_def ret_def sys_def)
  next
    case False
    with assms(2) have "r \<noteq> row" by auto
    with Cons.prems have "row \<in> set rows" by auto
    from Cons.IH [OF this, of "s\<lparr>trace := trace s @ [applied r]\<rparr>"] False show ?thesis
      by (simp add: bnd_def fatal_def ret_def sys_def effect_def applied_def)
  qed
qed

lemma rlimits_then_post:
  assumes m: "made s X cp ce s4"
  shows "wp (bnd (SetRLimits E (Some rows)) (\<lambda>_. child_post E a))
     (\<lambda>u s'. (\<forall>row \<in> set rows. length row = 3) \<and>
              (\<exists>A B. trace s' = trace s @ A @ map applied rows @ B))
     (\<lambda>r s'. True) s4"
proof (cases "SetRLimits_rows E rows s4")
  case (Stops r s5)
  then show ?thesis by (simp add: wp_def SetRLimits_def)
next
  case (Returns u s5)
  with SetRLimits_rows_spec [where E = E and rows = rows and s = s4]
  have s5: "s5 = s4\<lparr>trace := trace s4 @ map applied rows\<rparr>"
    and len: "\<forall>row \<in> set rows. length row = 3"
    by simp_all
  from m obtain A where A: "trace s4 = trace s @ A"
    by (auto simp: made_def prefix_def)
  have "wp (child_post E a)
     (\<lambda>u s'. (\<forall>row \<in> set rows. length row = 3) \<and>
              (\<exists>A B. trace s' = trace s @ A @ map applied rows @ B))
     (\<lambda>r s'. True) s5"
  proof (rule wp_mono [OF child_post_skel [of E a s5]])
    fix u s'
    assume "made s5 (child_calls a 0 0 0)
              (ucast (ucast (permittedCapabilities a) :: 32 word))
              (ucast (ucast (effectiveCapabilities a) :: 32 word)) s'"
    then obtain B where "trace s' = trace s5 @ B"
      by (auto simp: made_def prefix_def)
    then have "trace s' = trace s @ A @ map applied rows @ B"
      by (simp add: s5 A)
    with len show "(\<forall>row \<in> set rows. length row = 3) \<and>
              (\<exists>A B. trace s' = trace s @ A @ map applied rows @ B)"
      by blast
  qed simp
  then show ?thesis
    using Returns by (simp add: wp_def SetRLimits_def)
qed

lemma child_branch_rlimits:
  assumes "javaRlimits a = Some rows"
  shows "wp (child_branch E a)
     (\<lambda>u s'. (\<forall>row \<in> set rows. length row = 3) \<and>
              (\<exists>A B. trace s' = trace s @ A @ map applied rows @ B))
     (\<lambda>r s'. True) s"
  unfolding child_branch_split assms
  apply (rule wq [OF quiet_store made_init], simp)
  apply (erule wq [OF quiet_if [OF quiet_EnableKeepCapabilities quiet_ret]], simp)
  apply (erule wq [OF quiet_MountExternalStorage], simp)
  apply (erule wq [OF quiet_SetGids], simp)
  apply (erule rlimits_then_post)
  done

lemma child_branch_refused:
  assumes "javaRlimits a = Some rows" and "row \<in> set rows"
    and "length row \<noteq> 3 \<or> (\<forall>tr. fails E tr (Setrlimit (row ! 0) (row ! 1) (row ! 2)))"
  shows "wp (child_branch E a) (\<lambda>u s'. False) (\<lambda>r s'. r = Aborted) s"
  unfolding child_branch_split assms(1)
  apply (rule wq [OF quiet_store made_init], simp)
  apply (erule wq [OF quiet_if [OF quiet_EnableKeepCapabilities quiet_ret]], simp)
  apply (erule wq [OF quiet_MountExternalStorage], simp)
  apply (erule wq [OF quiet_SetGids], simp)
  subgoal for u1 s1 u2 s2 u3 s3 u4 s4
    using SetRLimits_rows_refused [OF assms(2,3), where s = s4]
    by (auto simp: wp_def SetRLimits_def)
  done

lemma fork_and_specialize_rlimits:
  assumes "javaRlimits a = Some rows"
  shows "wp (ForkAndSpecializeCommon E a)
     (\<lambda>pid s'. pid = 0 \<longrightarrow>
        (\<forall>row \<in> set rows. length row = 3) \<and>
        (\<exists>A B. trace s' = trace s @ A @ map applied rows @ B))
     (\<lambda>r s'. True) s"
  unfolding ForkAndSpecializeCommon_def
  apply (rule wq [OF quiet_ask made_init], simp)
  apply (erule wq [OF quiet_check], simp)
  apply (erule wq [OF quiet_ask], simp)
  apply (erule wq [OF quiet_check], simp)
  apply (erule wq [OF quiet_SetSigChldHandler], simp)
  apply (erule wfork)
  subgoal for zygote s1 u2 s2 quiesced s3 u4 s4 u5 s5 pid s6
  proof (cases "pid = 0")
    case False
    then show ?thesis by simp
  next
    case True
    assume "made s ([] @ [Sys Fork pid]) (cap_permitted s) (cap_effective s) s6"
    then obtain A0 where A0: "trace s6 = trace s @ A0"
      by (auto simp: made_def prefix_def)
    have "wp (child_branch E a)
       (\<lambda>u s'. (\<forall>row \<in> set rows. length row = 3) \<and>
                (\<exists>A B. trace s' = trace s @ A @ map applied rows @ B))
       (\<lambda>r s'. True) s6"
    proof (rule wp_mono [OF child_branch_rlimits [OF assms, where E = E and s = s6]])
      fix u :: unit and s'
      assume "(\<forall>row \<in> set rows. length row = 3) \<and>
                (\<exists>A B. trace s' = trace s6 @ A @ map applied rows @ B)"
      then obtain A B where "\<forall>row \<in> set rows. length row = 3"
        "trace s' = trace s @ (A0 @ A) @ map applied rows @ B"
        by (auto simp: A0)
      then show "(\<forall>row \<in> set rows. length row = 3) \<and>
                (\<exists>A B. trace s' = trace s @ A @ map applied rows @ B)"
        by blast
    qed simp
    then show ?thesis using True by simp
  qed
  done

lemma fork_and_specialize_refused:
  assumes "javaRlimits a = Some rows" and "row \<in> set rows"
    and "length row \<noteq> 3 \<or> (\<forall>tr. fails E tr (Setrlimit (row ! 0) (row ! 1) (row ! 2)))"
  shows "wp (ForkAndSpecializeCommon E a) (\<lambda>pid s'. pid \<noteq> 0) (\<lambda>r s'. r = Aborted) s"
  unfolding ForkAndSpecializeCommon_def
  apply (rule wq [OF quiet_ask made_init], simp)
  apply (erule wq [OF quiet_check], simp)
  apply (erule wq [OF quiet_ask], simp)
  apply (erule wq [OF quiet_check], simp)
  apply (erule wq [OF quiet_SetSigChldHandler], simp)
  apply (erule wfork)
  subgoal for zygote s1 u2 s2 quiesced s3 u4 s4 u5 s5 pid s6
    using child_branch_refused [OF assms, where s = s6]
    by (cases "pid = 0") (auto elim: wp_mono)
  done

subsection \<open>The shape of a spawn\<close>




































section \<open>The claims\<close>

text \<open>
  C1. The claim says that the child's permitted and effective sets equal the profile's
  bitmasks exactly. The bitmasks are 64-bit values and \<^verbatim>\<open>SetCapabilities\<close> stores them in
  the 32-bit fields of the version-1 \<^verbatim>\<open>capset\<close> data: for a profile with target uid
  10001 whose bitmasks hold capability 32, the child completes the sequence with both
  sets empty.
\<close>

theorem capabilities_equal_profile_counterexample:
  "uid high_caps_args \<noteq> 0 \<and>
   ForkAndSpecializeCommon calm_env high_caps_args fresh_proc =
     Returns 0 (final (ForkAndSpecializeCommon calm_env high_caps_args fresh_proc)) \<and>
   cap_permitted (final (ForkAndSpecializeCommon calm_env high_caps_args fresh_proc)) = 0 \<and>
   cap_permitted (final (ForkAndSpecializeCommon calm_env high_caps_args fresh_proc))
     \<noteq> permittedCapabilities high_caps_args \<and>
   cap_effective (final (ForkAndSpecializeCommon calm_env high_caps_args fresh_proc))
     \<noteq> effectiveCapabilities high_caps_args"
  by (simp add: high_caps_args_def calm_child_run final_def) (simp add: plain_args_def)

text \<open>
  C1, amended. Whenever a child completes the sequence (for every target uid, so also for
  every uid other than 0), its permitted and effective sets are the low 32 bits of the
  profile's bitmasks, hence the bitmasks themselves when these are below \<open>2 ^ 32\<close>; and
  the privileged calls it has issued are, in this order, the successful \<^verbatim>\<open>setgid\<close>, the
  successful \<^verbatim>\<open>setuid\<close> and the successful \<^verbatim>\<open>capset\<close>: the capability sets are installed
  strictly after the identity change.
\<close>

theorem capabilities_installed_after_identity_change:
  assumes "ForkAndSpecializeCommon E a s = Returns 0 s'"
  shows "cap_permitted s' = take_bit 32 (permittedCapabilities a) \<and>
         cap_effective s' = take_bit 32 (effectiveCapabilities a) \<and>
         filter priv (issued s s') =
           [Sys Fork 0, Sys (Setgid (gid a)) 0, Sys (Setuid (uid a)) 0,
            Sys (Capset (ucast (effectiveCapabilities a)) (ucast (permittedCapabilities a))) 0] \<and>
         (permittedCapabilities a < 2 ^ 32 \<longrightarrow> cap_permitted s' = permittedCapabilities a) \<and>
         (effectiveCapabilities a < 2 ^ 32 \<longrightarrow> cap_effective s' = effectiveCapabilities a)"
  using fork_and_specialize_returns(1,2,3) [OF assms]
  by (simp add: child_calls_def take_bit_eq_mask less_mask_eq)

theorem capabilities_installed_after_identity_change_witness:
  "cap_permitted (final (ForkAndSpecializeCommon calm_env low_caps_args fresh_proc)) = 5 \<and>
   cap_effective (final (ForkAndSpecializeCommon calm_env low_caps_args fresh_proc)) = 5 \<and>
   filter priv (issued fresh_proc (final (ForkAndSpecializeCommon calm_env low_caps_args fresh_proc)))
     = [Sys Fork 0, Sys (Setgid 10001) 0, Sys (Setuid 10001) 0, Sys (Capset 5 5) 0]"
proof -
  have r: "ForkAndSpecializeCommon calm_env low_caps_args fresh_proc =
      Returns 0 (final (ForkAndSpecializeCommon calm_env low_caps_args fresh_proc))"
    by (simp add: low_caps_args_def calm_child_run final_def)
  show ?thesis
    using capabilities_installed_after_identity_change [OF r]
    by (simp add: low_caps_args_def plain_args_def)
qed

text \<open>
  C2. In every run of \<^verbatim>\<open>ForkAndSpecializeCommon\<close> the identity changes issued, in order,
  are one of: none; a failed \<^verbatim>\<open>setgid\<close>; a successful \<^verbatim>\<open>setgid\<close>; a successful
  \<^verbatim>\<open>setgid\<close> followed by a failed \<^verbatim>\<open>setuid\<close>; a successful \<^verbatim>\<open>setgid\<close> followed by a
  successful \<^verbatim>\<open>setuid\<close>. So \<^verbatim>\<open>setuid\<close> is never issued before \<^verbatim>\<open>setgid\<close> has
  succeeded, both carry the profile's ids, and a child that completes the sequence has
  changed its group id first and its user id second.
\<close>

theorem setgid_commits_before_setuid:
  "identity_calls (issued s (final (ForkAndSpecializeCommon E a s))) \<in>
     set [[], [Sys (Setgid (gid a)) (- 1)], [Sys (Setgid (gid a)) 0],
          [Sys (Setgid (gid a)) 0, Sys (Setuid (uid a)) (- 1)],
          [Sys (Setgid (gid a)) 0, Sys (Setuid (uid a)) 0]]
   \<and> (\<forall>s'. ForkAndSpecializeCommon E a s = Returns 0 s' \<longrightarrow>
          identity_calls (issued s s') = [Sys (Setgid (gid a)) 0, Sys (Setuid (uid a)) 0])"
proof (cases "ForkAndSpecializeCommon E a s")
  case (Returns pid s')
  have "identity_calls (issued s s') =
          (if pid = 0 then [Sys (Setgid (gid a)) 0, Sys (Setuid (uid a)) 0] else [])"
    using fork_and_specialize_returns(1,4) [OF Returns]
      identity_calls_priv [of "issued s s'", symmetric]
    by (cases "pid = 0") (simp_all add: identity_calls_eval)
  then show ?thesis
    using Returns by (auto simp: final_def)
next
  case (Stops r s')
  have "identity_calls (filter priv (issued s s')) \<in>
     set [[], [Sys (Setgid (gid a)) (- 1)], [Sys (Setgid (gid a)) 0],
          [Sys (Setgid (gid a)) 0, Sys (Setuid (uid a)) (- 1)],
          [Sys (Setgid (gid a)) 0, Sys (Setuid (uid a)) 0]]"
    using fork_and_specialize_stops(2) [OF Stops]
    by (auto simp: child_partial_def identity_calls_eval)
  then show ?thesis
    using Stops by (simp add: final_def identity_calls_priv)
qed

theorem setgid_commits_before_setuid_witness:
  "identity_calls (issued fresh_proc (final (ForkAndSpecializeCommon calm_env plain_args fresh_proc)))
     = [Sys (Setgid 10001) 0, Sys (Setuid 10001) 0]"
proof -
  have "plain_args\<lparr>permittedCapabilities := 0, effectiveCapabilities := 0\<rparr> = plain_args"
    by (simp add: plain_args_def)
  with calm_child_run [of 0 0]
  have "\<exists>s'. ForkAndSpecializeCommon calm_env plain_args fresh_proc = Returns 0 s'"
    by simp
  then show ?thesis
    using setgid_commits_before_setuid [where s = fresh_proc and E = calm_env and a = plain_args]
    by (auto simp: final_def plain_args_def)
qed

text \<open>
  C3. Let the table of children be well formed (every pid is positive). One invocation
  of \<^verbatim>\<open>SigChldHandler\<close> reaps the registered singleton exactly when the singleton is
  among the terminated children. If it reaps it, the invocation ends with the process
  killed by the \<^verbatim>\<open>SIGKILL\<close> it sent to itself: the kill is the last thing the process
  does and it is sent exactly once, however many other children were pending. If it does
  not, the handler returns and no kill is sent.
\<close>

theorem singleton_death_kills_service_once:
  assumes "\<forall>z \<in> set (zombies s). fst z > 0"
  shows "(gSystemServerPid s \<in> set (reaped (issued s (final (SigChldHandler s)))) \<longrightarrow>
            SigChldHandler s = Stops Killed (final (SigChldHandler s)) \<and>
            kills (issued s (final (SigChldHandler s))) = 1 \<and>
            last (trace (final (SigChldHandler s))) = Sys (Kill_self SIGKILL) 0)
       \<and> (gSystemServerPid s \<notin> set (reaped (issued s (final (SigChldHandler s)))) \<longrightarrow>
            SigChldHandler s = Returns () (final (SigChldHandler s)) \<and>
            kills (issued s (final (SigChldHandler s))) = 0)
       \<and> (gSystemServerPid s \<in> set (reaped (issued s (final (SigChldHandler s)))))
            = (gSystemServerPid s \<in> fst ` set (zombies s))"
proof -
  have "(gSystemServerPid s \<in> set (reaped (issued s (final (SigChldHandler s)))))
            = (gSystemServerPid s \<in> fst ` set (zombies s))"
    using sigchld_handler_spec [OF assms] drained_mem [of "gSystemServerPid s" "zombies s"]
    by simp
  then show ?thesis
    using sigchld_handler_spec [OF assms] by (simp split: if_splits)
qed

theorem singleton_death_kills_service_once_witness:
  "SigChldHandler singleton_pending = Stops Killed (final (SigChldHandler singleton_pending)) \<and>
   kills (issued singleton_pending (final (SigChldHandler singleton_pending))) = 1 \<and>
   last (trace (final (SigChldHandler singleton_pending))) = Sys (Kill_self SIGKILL) 0"
  using singleton_death_kills_service_once [of singleton_pending]
  by (simp add: singleton_pending_def)

text \<open>
  C4. When the common path has returned a child's pid to the parent (\<open>pid > 0\<close>), the
  singleton entry point logs the creation, stores the pid in \<^verbatim>\<open>gSystemServerPid\<close> and
  only then calls \<^verbatim>\<open>waitpid(pid, &status, WNOHANG)\<close>. If the child has already
  terminated (it is among the terminated children not yet reaped), the call reaps it and
  returns the pid, and the entry point aborts the service with \<^verbatim>\<open>LOG(FATAL)\<close> instead
  of returning the pid; otherwise it returns the pid.
\<close>

theorem singleton_registered_then_rechecked:
  assumes "ForkAndSpecializeCommon E
            \<lparr>uid = u, gid = g, javaGids = gids, debug_flags = flags, javaRlimits = rlimits,
             permittedCapabilities = p, effectiveCapabilities = e,
             mount_external = MOUNT_EXTERNAL_NONE, java_se_info = None, java_se_name = None,
             is_system_server = True\<rparr> s = Returns pid s1"
    and "pid > 0"
  shows "Zygote_nativeForkSystemServer E u g gids flags rlimits p e s =
     (case map_of (zombies s1) pid of
        Some st \<Rightarrow>
          Stops Aborted
            (s1\<lparr>trace := trace s1 @
                  [Log INFO [Str ''System server process '', Num pid, Str '' has been created''],
                   Store ''gSystemServerPid'' pid,
                   Sys (Waitpid pid) pid,
                   Log FATAL [Str ''System server process '', Num pid,
                              Str '' has died. Restarting Zygote!'']],
                gSystemServerPid := pid,
                zombies := filter (\<lambda>z. fst z \<noteq> pid) (zombies s1)\<rparr>)
      | None \<Rightarrow>
          Returns pid
            (s1\<lparr>trace := trace s1 @
                  [Log INFO [Str ''System server process '', Num pid, Str '' has been created''],
                   Store ''gSystemServerPid'' pid,
                   Sys (Waitpid pid) (if pid \<in> set (running s1) then 0 else - 1)],
                gSystemServerPid := pid\<rparr>))"
  using assms
  by (auto simp: Zygote_nativeForkSystemServer_def bnd_def ret_def emit_def fatal_def
      store_gSystemServerPid_def waitpid_def Let_def split: option.splits)

theorem singleton_registered_then_rechecked_witness:
  "Zygote_nativeForkSystemServer dead_child_env 1000 1000 None 0 None 5 5 fresh_proc =
     Stops Aborted
       (fresh_proc\<lparr>trace :=
          [Ask IsZygote True, Ask PreZygoteFork True, Sys (Sigaction_SIGCHLD SigChldHandler_fn) 0,
           Sys Fork 1234,
           Log INFO [Str ''System server process '', Num 1234, Str '' has been created''],
           Store ''gSystemServerPid'' 1234,
           Sys (Waitpid 1234) 1234,
           Log FATAL [Str ''System server process '', Num 1234,
                      Str '' has died. Restarting Zygote!'']],
          gSystemServerPid := 1234\<rparr>)"
  using singleton_registered_then_rechecked [OF dead_child_run, of 1000 1000 None 0 None 5 5]
  by (simp add: fresh_proc_def)

text \<open>
  C5. The claim says that one invocation reaps every pending child and leaves none
  unreaped. With the registered singleton (pid 5) and another child (pid 7) both pending,
  the singleton first, the handler reaps pid 5, kills the process there, and pid 7 is left
  unreaped.
\<close>

theorem drain_reaps_all_counterexample:
  "map fst (zombies singleton_pending) = [5, 7] \<and>
   SigChldHandler singleton_pending = Stops Killed (final (SigChldHandler singleton_pending)) \<and>
   reaped (issued singleton_pending (final (SigChldHandler singleton_pending))) = [5] \<and>
   zombies (final (SigChldHandler singleton_pending)) = [(7, WExited 0)]"
proof -
  have p: "\<forall>z \<in> set (zombies singleton_pending). fst z > 0"
    by (simp add: singleton_pending_def)
  show ?thesis
    using sigchld_handler_spec [OF p]
    by (simp add: singleton_pending_def drained_def left_behind_def)
qed

text \<open>
  C5, amended. Let the table of children be well formed. One invocation of the handler
  reaps, without blocking, the pending children in the order the system reports them,
  each once, up to and including the first one that is the registered singleton, and the
  children pending after that one stay unreaped (the process is killed there). When the
  registered singleton is not among the N pending children, the invocation reaps exactly
  those N pids and leaves no terminated child unreaped.
\<close>

theorem drain_reaps_pending_children:
  assumes "\<forall>z \<in> set (zombies s). fst z > 0"
  shows "reaped (issued s (final (SigChldHandler s)))
           = map fst (drained (gSystemServerPid s) (zombies s)) \<and>
         zombies (final (SigChldHandler s)) = left_behind (gSystemServerPid s) (zombies s) \<and>
         prefix (reaped (issued s (final (SigChldHandler s)))) (map fst (zombies s)) \<and>
         (gSystemServerPid s \<notin> fst ` set (zombies s) \<longrightarrow>
            SigChldHandler s = Returns () (final (SigChldHandler s)) \<and>
            reaped (issued s (final (SigChldHandler s))) = map fst (zombies s) \<and>
            zombies (final (SigChldHandler s)) = [])"
proof -
  have "prefix (map fst (drained (gSystemServerPid s) (zombies s))) (map fst (zombies s))"
    by (rule map_mono_prefix [OF drained_prefix])
  then show ?thesis
    using sigchld_handler_spec [OF assms] drained_all [of "gSystemServerPid s" "zombies s"]
    by (simp split: if_splits)
qed

theorem drain_reaps_pending_children_witness:
  "SigChldHandler others_pending = Returns () (final (SigChldHandler others_pending)) \<and>
   reaped (issued others_pending (final (SigChldHandler others_pending))) = [6, 7] \<and>
   zombies (final (SigChldHandler others_pending)) = []"
  using drain_reaps_pending_children [of others_pending]
  by (simp add: others_pending_def drained_def left_behind_def)




text \<open>
  C7. The claim says that a failure of the pre-fork quiescence step refuses the request
  and leaves the service alive. When \<^verbatim>\<open>PreZygoteFork\<close> answers false the code executes
  \<^verbatim>\<open>LOG(FATAL)\<close> in the spawning process itself, before any \<^verbatim>\<open>fork\<close>: the service is
  aborted and nothing is returned to the caller.
\<close>

theorem prefork_failure_counterexample:
  "ForkAndSpecializeCommon unquiesced_env plain_args fresh_proc =
     Stops Aborted
       (fresh_proc\<lparr>trace := [Ask IsZygote True, Ask PreZygoteFork False,
                              Log FATAL [Str ''pre-fork heap failed'']]\<rparr>)"
  by (simp add: run_defs unquiesced_env_def calm_env_def fresh_proc_def)

text \<open>
  C7, amended. In a zygote runtime, a failure of the pre-fork quiescence step aborts the
  spawning process before any \<^verbatim>\<open>fork\<close> is attempted; a failure of \<^verbatim>\<open>fork\<close> is returned
  to the caller as -1 by \<^verbatim>\<open>ForkAndSpecializeCommon\<close> and by the singleton entry point,
  the process has issued no privileged call but the failed \<^verbatim>\<open>fork\<close>, and the singleton
  registry and the table of children are as before: the service survives.
\<close>

theorem prefork_failure_aborts_fork_failure_is_returned:
  assumes "answers E (trace s) IsZygote"
  shows "(\<not> answers E (trace s @ [Ask IsZygote True]) PreZygoteFork \<longrightarrow>
            ForkAndSpecializeCommon E a s =
              Stops Aborted
                (s\<lparr>trace := trace s @ [Ask IsZygote True, Ask PreZygoteFork False,
                                         Log FATAL [Str ''pre-fork heap failed'']]\<rparr>))
       \<and> (answers E (trace s @ [Ask IsZygote True]) PreZygoteFork \<and> (\<forall>tr. fork_ret E tr = - 1) \<longrightarrow>
            (\<exists>s'. ForkAndSpecializeCommon E a s = Returns (- 1) s' \<and>
                   filter priv (issued s s') = [Sys Fork (- 1)] \<and>
                   gSystemServerPid s' = gSystemServerPid s \<and>
                   zombies s' = zombies s \<and> running s' = running s \<and>
                   Zygote_nativeForkSystemServer E (uid a) (gid a) (javaGids a) (debug_flags a)
                     (javaRlimits a) (permittedCapabilities a) (effectiveCapabilities a) s =
                   ForkAndSpecializeCommon E
                     (a\<lparr>mount_external := MOUNT_EXTERNAL_NONE, java_se_info := None,
                        java_se_name := None, is_system_server := True\<rparr>) s))"
proof (intro conjI impI)
  assume "\<not> answers E (trace s @ [Ask IsZygote True]) PreZygoteFork"
  with assms show "ForkAndSpecializeCommon E a s =
              Stops Aborted
                (s\<lparr>trace := trace s @ [Ask IsZygote True, Ask PreZygoteFork False,
                                         Log FATAL [Str ''pre-fork heap failed'']]\<rparr>)"
    by (simp add: ForkAndSpecializeCommon_def bnd_def ask_def fatal_def ret_def Let_def)
next
  assume h: "answers E (trace s @ [Ask IsZygote True]) PreZygoteFork \<and> (\<forall>tr. fork_ret E tr = - 1)"
  have run: "\<And>b. \<exists>s'. ForkAndSpecializeCommon E b s = Returns (- 1) s' \<and>
      gSystemServerPid s' = gSystemServerPid s \<and> zombies s' = zombies s \<and> running s' = running s"
    using assms h
    by (simp add: ForkAndSpecializeCommon_def bnd_def ask_def fatal_def ret_def Let_def
        SetSigChldHandler_def sys_def effect_def emit_def fork_def)
  from run [of a] obtain s' where s': "ForkAndSpecializeCommon E a s = Returns (- 1) s'"
    "gSystemServerPid s' = gSystemServerPid s" "zombies s' = zombies s" "running s' = running s"
    by blast
  let ?b = "a\<lparr>mount_external := MOUNT_EXTERNAL_NONE, java_se_info := None,
               java_se_name := None, is_system_server := True\<rparr>"
  from run [of ?b] obtain s2 where s2: "ForkAndSpecializeCommon E ?b s = Returns (- 1) s2"
    by blast
  have b: "?b = \<lparr>uid = uid a, gid = gid a, javaGids = javaGids a, debug_flags = debug_flags a,
             javaRlimits = javaRlimits a, permittedCapabilities = permittedCapabilities a,
             effectiveCapabilities = effectiveCapabilities a,
             mount_external = MOUNT_EXTERNAL_NONE, java_se_info = None, java_se_name = None,
             is_system_server = True\<rparr>"
    by simp
  have "Zygote_nativeForkSystemServer E (uid a) (gid a) (javaGids a) (debug_flags a)
          (javaRlimits a) (permittedCapabilities a) (effectiveCapabilities a) s = Returns (- 1) s2"
    by (rule fork_system_server_no_child) (use s2 b in auto)
  with s' s2 fork_and_specialize_returns(4) [OF s'(1)]
  show "\<exists>s'. ForkAndSpecializeCommon E a s = Returns (- 1) s' \<and>
                   filter priv (issued s s') = [Sys Fork (- 1)] \<and>
                   gSystemServerPid s' = gSystemServerPid s \<and>
                   zombies s' = zombies s \<and> running s' = running s \<and>
                   Zygote_nativeForkSystemServer E (uid a) (gid a) (javaGids a) (debug_flags a)
                     (javaRlimits a) (permittedCapabilities a) (effectiveCapabilities a) s =
                   ForkAndSpecializeCommon E ?b s"
    by simp
qed

theorem prefork_failure_aborts_fork_failure_is_returned_witness:
  "ForkAndSpecializeCommon unquiesced_env low_caps_args fresh_proc =
     Stops Aborted
       (fresh_proc\<lparr>trace := [Ask IsZygote True, Ask PreZygoteFork False,
                              Log FATAL [Str ''pre-fork heap failed'']]\<rparr>) \<and>
   (\<exists>s'. ForkAndSpecializeCommon fork_fails_env low_caps_args fresh_proc = Returns (- 1) s' \<and>
          filter priv (issued fresh_proc s') = [Sys Fork (- 1)] \<and>
          gSystemServerPid s' = 0 \<and> zombies s' = [] \<and> running s' = [])"
  using prefork_failure_aborts_fork_failure_is_returned
          [where E = unquiesced_env and s = fresh_proc and a = low_caps_args]
        prefork_failure_aborts_fork_failure_is_returned
          [where E = fork_fails_env and s = fresh_proc and a = low_caps_args]
  by (simp add: unquiesced_env_def fork_fails_env_def calm_env_def) (auto simp: fresh_proc_def)

text \<open>
  C8. \<^verbatim>\<open>SetRLimits\<close> applies the rows in order. If it returns, every row has three
  elements and the process has issued exactly the successful \<^verbatim>\<open>setrlimit\<close> calls of all
  rows, in order. Otherwise it has applied the rows before some row \<open>k\<close>, row \<open>k\<close> has the
  wrong size or was refused by the system, and the process is aborted right there. For
  the child: a child that returns from \<^verbatim>\<open>ForkAndSpecializeCommon\<close> (and so reaches its
  entry point) has issued the successful \<^verbatim>\<open>setrlimit\<close> calls of all rows, in order; and
  if some row has the wrong size or is refused by the system whenever it is tried, no
  child returns from \<^verbatim>\<open>ForkAndSpecializeCommon\<close>: the only runs that return are those
  of the parent.
\<close>

theorem rlimits_all_or_nothing:
  "(case SetRLimits E (Some rows) s of
      Returns u s' \<Rightarrow>
        s' = s\<lparr>trace := trace s @ map applied rows\<rparr> \<and> (\<forall>row \<in> set rows. length row = 3)
    | Stops r s' \<Rightarrow>
        r = Aborted \<and>
        (\<exists>k < length rows.
           s' = s\<lparr>trace := trace s @ map applied (take k rows) @ refused (rows ! k)\<rparr> \<and>
           (\<forall>row \<in> set (take k rows). length row = 3)))
   \<and> SetRLimits E None s = Returns () s
   \<and> (\<forall>a s0 s'. javaRlimits a = Some rows \<longrightarrow>
          ForkAndSpecializeCommon E a s0 = Returns 0 s' \<longrightarrow>
          (\<forall>row \<in> set rows. length row = 3) \<and>
          (\<exists>A B. issued s0 s' = A @ map applied rows @ B))
   \<and> (\<forall>a s0 row pid s'. javaRlimits a = Some rows \<longrightarrow> row \<in> set rows \<longrightarrow>
          length row \<noteq> 3 \<or> (\<forall>tr. fails E tr (Setrlimit (row ! 0) (row ! 1) (row ! 2))) \<longrightarrow>
          ForkAndSpecializeCommon E a s0 = Returns pid s' \<longrightarrow> pid \<noteq> 0)"
proof (intro conjI allI impI)
  show "case SetRLimits E (Some rows) s of
      Returns u s' \<Rightarrow>
        s' = s\<lparr>trace := trace s @ map applied rows\<rparr> \<and> (\<forall>row \<in> set rows. length row = 3)
    | Stops r s' \<Rightarrow>
        r = Aborted \<and>
        (\<exists>k < length rows.
           s' = s\<lparr>trace := trace s @ map applied (take k rows) @ refused (rows ! k)\<rparr> \<and>
           (\<forall>row \<in> set (take k rows). length row = 3))"
    using SetRLimits_rows_spec [where E = E and rows = rows and s = s]
    by (simp add: SetRLimits_def)
  show "SetRLimits E None s = Returns () s"
    by (simp add: SetRLimits_def ret_def)
next
  fix a s0 s'
  assume a: "javaRlimits a = Some rows" and r: "ForkAndSpecializeCommon E a s0 = Returns 0 s'"
  from wp_Returns [OF fork_and_specialize_rlimits [OF a] r]
  obtain A B where len: "\<forall>row \<in> set rows. length row = 3"
    and tr: "trace s' = trace s0 @ A @ map applied rows @ B"
    by auto
  from len show "\<forall>row \<in> set rows. length row = 3" .
  from tr have "issued s0 s' = A @ map applied rows @ B"
    by (simp add: issued_def)
  then show "\<exists>A B. issued s0 s' = A @ map applied rows @ B"
    by blast
next
  fix a s0 row pid s'
  assume "javaRlimits a = Some rows" "row \<in> set rows"
    "length row \<noteq> 3 \<or> (\<forall>tr. fails E tr (Setrlimit (row ! 0) (row ! 1) (row ! 2)))"
    "ForkAndSpecializeCommon E a s0 = Returns pid s'"
  then show "pid \<noteq> 0"
    using wp_Returns [OF fork_and_specialize_refused] by blast
qed

theorem rlimits_all_or_nothing_witness:
  "SetRLimits calm_env (Some two_rows) fresh_proc =
     Returns () (fresh_proc\<lparr>trace := [Sys (Setrlimit 7 1024 4096) 0, Sys (Setrlimit 4 0 0) 0]\<rparr>) \<and>
   SetRLimits refusing_env (Some two_rows) fresh_proc =
     Stops Aborted
       (fresh_proc\<lparr>trace :=
          [Sys (Setrlimit 7 1024 4096) 0, Sys (Setrlimit 4 0 0) (- 1),
           Log FATAL [Str ''setrlimit('', Num 4, Str '', {'', Rlim 0, Str '', '', Rlim 0,
                      Str ''}) failed'']]\<rparr>) \<and>
   (\<forall>s'. ForkAndSpecializeCommon refusing_env limited_args fresh_proc \<noteq> Returns 0 s')"
proof -
  have 1: "SetRLimits calm_env (Some two_rows) fresh_proc =
     Returns () (fresh_proc\<lparr>trace := [Sys (Setrlimit 7 1024 4096) 0, Sys (Setrlimit 4 0 0) 0]\<rparr>)"
    by (simp add: SetRLimits_def two_rows_def bnd_def ret_def sys_def effect_def fatal_def
        calm_env_def fresh_proc_def)
  have 2: "SetRLimits refusing_env (Some two_rows) fresh_proc =
     Stops Aborted
       (fresh_proc\<lparr>trace :=
          [Sys (Setrlimit 7 1024 4096) 0, Sys (Setrlimit 4 0 0) (- 1),
           Log FATAL [Str ''setrlimit('', Num 4, Str '', {'', Rlim 0, Str '', '', Rlim 0,
                      Str ''}) failed'']]\<rparr>)"
    by (simp add: SetRLimits_def two_rows_def bnd_def ret_def sys_def effect_def fatal_def
        refusing_env_def calm_env_def fresh_proc_def)
  have 3: "javaRlimits limited_args = Some two_rows" "[4, 0, 0] \<in> set two_rows"
    "\<forall>tr. fails refusing_env tr (Setrlimit ([4, 0, 0] ! 0) ([4, 0, 0] ! 1) ([4, 0, 0] ! 2))"
    by (simp_all add: limited_args_def two_rows_def refusing_env_def calm_env_def)
  have 4: "ForkAndSpecializeCommon refusing_env limited_args fresh_proc = Returns pid s' \<Longrightarrow> pid \<noteq> 0"
    for pid s'
    using rlimits_all_or_nothing [where E = refusing_env and rows = two_rows and s = fresh_proc,
        THEN conjunct2, THEN conjunct2, THEN conjunct2, rule_format,
        where a = limited_args and ?s0.0 = fresh_proc and row = "[4, 0, 0]"] 3
    by blast
  show ?thesis
    using 1 2 4 by auto
qed

text \<open>
  C9. \<^verbatim>\<open>Zygote_nativeExecShell\<close> with a command never returns. When \<^verbatim>\<open>execv\<close> succeeds
  the process image is replaced. When \<^verbatim>\<open>execv\<close> fails the process exits with status
  127, and the failed \<^verbatim>\<open>execv\<close> and the \<^verbatim>\<open>exit\<close> are the only calls it has made; the
  one log line, written before the attempt, is the same in both cases.
\<close>

theorem exec_shell_replaces_or_exits_127:
  "Zygote_nativeExecShell E (Some command) s =
     (if fails E (trace s @ [Log INFO [Str ''Exec: '', Str (path_bshell E), Str '' '',
                                        Str ''-c'', Str '' '', Str command]])
           (Execv (path_bshell E) [path_bshell E, ''-c'', command])
      then Stops (Exited 127)
             (s\<lparr>trace := trace s @
                [Log INFO [Str ''Exec: '', Str (path_bshell E), Str '' '', Str ''-c'', Str '' '',
                           Str command],
                 Sys (Execv (path_bshell E) [path_bshell E, ''-c'', command]) (- 1),
                 Sys (Exit 127) 0]\<rparr>)
      else Stops Replaced
             (s\<lparr>trace := trace s @
                [Log INFO [Str ''Exec: '', Str (path_bshell E), Str '' '', Str ''-c'', Str '' '',
                           Str command],
                 Sys (Execv (path_bshell E) [path_bshell E, ''-c'', command]) 0]\<rparr>))"
  by (simp add: Zygote_nativeExecShell_def bnd_def emit_def execv_def exit_process_def)

theorem exec_shell_witness:
  "Zygote_nativeExecShell (calm_env\<lparr>fails := (\<lambda>tr c. True)\<rparr>) (Some ''echo 1'') fresh_proc =
     Stops (Exited 127)
       (fresh_proc\<lparr>trace :=
          [Log INFO [Str ''Exec: '', Str ''/system/bin/sh'', Str '' '', Str ''-c'', Str '' '',
                     Str ''echo 1''],
           Sys (Execv ''/system/bin/sh'' [''/system/bin/sh'', ''-c'', ''echo 1'']) (- 1),
           Sys (Exit 127) 0]\<rparr>)"
  using exec_shell_replaces_or_exits_127 [of "calm_env\<lparr>fails := (\<lambda>tr c. True)\<rparr>" "''echo 1''" fresh_proc]
  by (simp add: calm_env_def fresh_proc_def)

text \<open>
  C10. The application entry point is the common path with both capability bitmasks 0.
  So a child of an application spawn that completes the sequence has empty permitted
  and effective sets, and the only \<^verbatim>\<open>capset\<close> an application spawn can issue installs
  two empty sets. The singleton entry point hands its two bitmask parameters to the
  common path: its child ends with their low 32 bits, which can be non-zero.
\<close>

theorem application_spawn_has_empty_capabilities:
  "Zygote_nativeForkAndSpecialize E u g gids flags rlimits mount_mode se_info se_name =
     ForkAndSpecializeCommon E
       \<lparr>uid = u, gid = g, javaGids = gids, debug_flags = flags, javaRlimits = rlimits,
        permittedCapabilities = 0, effectiveCapabilities = 0, mount_external = mount_mode,
        java_se_info = se_info, java_se_name = se_name, is_system_server = False\<rparr>
   \<and> (\<forall>s s'. Zygote_nativeForkAndSpecialize E u g gids flags rlimits mount_mode se_info se_name s
                = Returns 0 s' \<longrightarrow>
          cap_permitted s' = 0 \<and> cap_effective s' = 0)
   \<and> (\<forall>s. capset_calls (issued s (final
          (Zygote_nativeForkAndSpecialize E u g gids flags rlimits mount_mode se_info se_name s)))
        \<in> set [[], [Sys (Capset 0 0) (- 1)], [Sys (Capset 0 0) 0]])
   \<and> (\<forall>s s'. Zygote_nativeForkSystemServer E u g gids flags rlimits p e s = Returns 0 s' \<longrightarrow>
          cap_permitted s' = take_bit 32 p \<and> cap_effective s' = take_bit 32 e)"
proof (intro conjI allI impI)
  let ?a = "\<lparr>uid = u, gid = g, javaGids = gids, debug_flags = flags, javaRlimits = rlimits,
        permittedCapabilities = 0, effectiveCapabilities = 0, mount_external = mount_mode,
        java_se_info = se_info, java_se_name = se_name, is_system_server = False\<rparr>"
  show eq: "Zygote_nativeForkAndSpecialize E u g gids flags rlimits mount_mode se_info se_name =
     ForkAndSpecializeCommon E ?a"
    by (rule ext) (simp add: Zygote_nativeForkAndSpecialize_def)
  {
    fix s s'
    assume "Zygote_nativeForkAndSpecialize E u g gids flags rlimits mount_mode se_info se_name s
              = Returns 0 s'"
    then have r: "ForkAndSpecializeCommon E ?a s = Returns 0 s'"
      by (simp add: eq)
    from fork_and_specialize_returns(2) [OF r] show "cap_permitted s' = 0" by simp
    from fork_and_specialize_returns(3) [OF r] show "cap_effective s' = 0" by simp
  }
  {
    fix s
    have "capset_calls (filter priv (issued s (final (ForkAndSpecializeCommon E ?a s))))
        \<in> set [[], [Sys (Capset 0 0) (- 1)], [Sys (Capset 0 0) 0]]"
    proof (cases "ForkAndSpecializeCommon E ?a s")
      case (Returns pid s')
      show ?thesis
        using fork_and_specialize_returns(1,4) [OF Returns] Returns
        by (cases "pid = 0") (simp_all add: final_def capset_calls_eval)
    next
      case (Stops r s')
      show ?thesis
        using fork_and_specialize_stops(2) [OF Stops] Stops
        by (auto simp: final_def capset_calls_eval child_partial_def)
    qed
    then show "capset_calls (issued s (final
          (Zygote_nativeForkAndSpecialize E u g gids flags rlimits mount_mode se_info se_name s)))
        \<in> set [[], [Sys (Capset 0 0) (- 1)], [Sys (Capset 0 0) 0]]"
      by (simp add: eq capset_calls_priv)
  }
  {
    fix s s'
    let ?b = "\<lparr>uid = u, gid = g, javaGids = gids, debug_flags = flags, javaRlimits = rlimits,
             permittedCapabilities = p, effectiveCapabilities = e,
             mount_external = MOUNT_EXTERNAL_NONE, java_se_info = None, java_se_name = None,
             is_system_server = True\<rparr>"
    assume z: "Zygote_nativeForkSystemServer E u g gids flags rlimits p e s = Returns 0 s'"
    have r: "ForkAndSpecializeCommon E ?b s = Returns 0 s'"
      using z
      by (auto simp: Zygote_nativeForkSystemServer_def bnd_def ret_def emit_def fatal_def
          store_gSystemServerPid_def waitpid_def Let_def
          split: outcome.splits if_splits option.splits)
    from fork_and_specialize_returns(2) [OF r] show "cap_permitted s' = take_bit 32 p" by simp
    from fork_and_specialize_returns(3) [OF r] show "cap_effective s' = take_bit 32 e" by simp
  }
qed

theorem application_spawn_has_empty_capabilities_witness:
  "cap_permitted (final (Zygote_nativeForkAndSpecialize calm_env 10001 10001 None 0 None 0
                           None None fresh_proc)) = 0 \<and>
   cap_effective (final (Zygote_nativeForkAndSpecialize calm_env 10001 10001 None 0 None 0
                           None None fresh_proc)) = 0 \<and>
   cap_permitted fresh_proc \<noteq> 0"
proof -
  have a: "\<lparr>uid = 10001, gid = 10001, javaGids = None, debug_flags = 0, javaRlimits = None,
        permittedCapabilities = 0, effectiveCapabilities = 0, mount_external = 0,
        java_se_info = None, java_se_name = None, is_system_server = False\<rparr>
        = plain_args\<lparr>permittedCapabilities := 0, effectiveCapabilities := 0\<rparr>"
    by (simp add: plain_args_def)
  have "Zygote_nativeForkAndSpecialize calm_env 10001 10001 None 0 None 0 None None fresh_proc
          = Returns 0 (final (Zygote_nativeForkAndSpecialize calm_env 10001 10001 None 0 None 0
                                None None fresh_proc))"
    by (simp add: Zygote_nativeForkAndSpecialize_def a calm_child_run final_def)
  then show ?thesis
    using application_spawn_has_empty_capabilities
            [where E = calm_env and u = 10001 and g = 10001 and gids = None and flags = 0
               and rlimits = None and mount_mode = 0 and se_info = None and se_name = None]
    by (auto simp: fresh_proc_def)
qed

end
